theory Spec2Isabelle
  imports Complex_Main
begin

section \<open>Data model\<close>

text \<open>
  \<^verbatim>\<open>class Block { color: string; thickness: number; constructor(color, thickness) }\<close>.
  The constructor call \<^verbatim>\<open>new Block(color, thickness)\<close> is the constructor application
  \<open>Block color thickness\<close>.
\<close>

datatype Block = Block (color_of: string) (thickness_of: int)

text \<open>
  A JavaScript array, as far as this program uses one: its \<^verbatim>\<open>length\<close> and the
  properties stored under integer keys. A key without a property reads as
  \<^verbatim>\<open>undefined\<close> (\<open>None\<close>); this covers both the holes left by
  \<^verbatim>\<open>new Array(n)\<close> and keys outside \<open>0..<length\<close>.
\<close>

record 'a js_array =
  alength :: nat
  elems :: "int \<rightharpoonup> 'a"

text \<open>\<^verbatim>\<open>new Array(n)\<close>: length \<open>n\<close>, no element defined.\<close>

definition new_Array :: "nat \<Rightarrow> 'a js_array" where
  "new_Array n = \<lparr>alength = n, elems = Map.empty\<rparr>"

text \<open>
  The assignment \<^verbatim>\<open>a[i] = v\<close> for an integer \<open>i\<close>: the property is stored; a
  non-negative key at or beyond the length extends the length, a negative key is an
  ordinary property and leaves the length alone.
\<close>

definition array_put :: "'a js_array \<Rightarrow> int \<Rightarrow> 'a \<Rightarrow> 'a js_array" where
  "array_put a i v =
     \<lparr>alength = (if 0 \<le> i \<and> int (alength a) \<le> i then nat i + 1 else alength a),
      elems = (elems a)(i \<mapsto> v)\<rparr>"

text \<open>
  \<^verbatim>\<open>private map: Array<Array<Block>>\<close>, the only field of a \<^verbatim>\<open>BlockMap\<close>:
  an array of columns, each an array of optional blocks.
\<close>

type_synonym blockmap = "Block js_array js_array"

text \<open>
  The constructor \<^verbatim>\<open>BlockMap(width, height)\<close>:
  \<^verbatim>\<open>this.map = new Array(width);
  for (var i = 0; i < this.map.length; i++) { this.map[i] = new Array(height); }\<close>
\<close>

definition BlockMap :: "nat \<Rightarrow> nat \<Rightarrow> blockmap" where
  "BlockMap width height =
     fold (\<lambda>i m. array_put m (int i) (new_Array height)) [0..<width] (new_Array width)"

text \<open>
  What the grid holds at \<open>(x, y)\<close>: the value of \<^verbatim>\<open>this.map[x][y]\<close> where the column
  \<^verbatim>\<open>this.map[x]\<close> exists, nothing where it does not.
\<close>

definition cell :: "blockmap \<Rightarrow> int \<Rightarrow> int \<Rightarrow> Block option" where
  "cell m x y = (case elems m x of None \<Rightarrow> None | Some column \<Rightarrow> elems column y)"

text \<open>
  A grid of width \<open>w\<close> and height \<open>h\<close>: the shape the constructor builds and every
  operation of the class keeps.
\<close>

definition grid_of :: "nat \<Rightarrow> nat \<Rightarrow> blockmap \<Rightarrow> bool" where
  "grid_of w h m \<longleftrightarrow>
     alength m = w \<and>
     (\<forall>x. (0 \<le> x \<and> x < int w \<longrightarrow> (\<exists>column. elems m x = Some column \<and> alength column = h)) \<and>
          (\<not> (0 \<le> x \<and> x < int w) \<longrightarrow> elems m x = None))"

section \<open>Writing and reading one block\<close>

text \<open>
  Coordinates are integers throughout: \<^verbatim>\<open>drawTree\<close> rounds every coordinate it passes
  on, and a thickness is a depth of the tree.
\<close>

text \<open>The default value of an omitted \<^verbatim>\<open>color\<close> argument.\<close>

definition color_or_default :: "string option \<Rightarrow> string" where
  "color_or_default color = (case color of None \<Rightarrow> ''#000000'' | Some c \<Rightarrow> c)"

text \<open>
  \<^verbatim>\<open>setBlock(x, y, thickness, color = "#000000") {
    if (x < this.map.length) {
      if (this.map[x]) {
        if (y < this.map[x].length) { this.map[x][y] = new Block(color, thickness); } } } }\<close>
  The method has no \<^verbatim>\<open>throw\<close> and reads \<^verbatim>\<open>this.map[x].length\<close> only after the
  test that \<^verbatim>\<open>this.map[x]\<close> is defined, so it is a total function on grids.
\<close>

definition setBlock :: "blockmap \<Rightarrow> int \<Rightarrow> int \<Rightarrow> int \<Rightarrow> string option \<Rightarrow> blockmap" where
  "setBlock m x y thickness color =
     (if x < int (alength m) then
        (case elems m x of
           Some column \<Rightarrow>
             if y < int (alength column)
             then m\<lparr>elems := (elems m)(x \<mapsto> array_put column y (Block (color_or_default color) thickness))\<rparr>
             else m
         | None \<Rightarrow> m)
      else m)"

datatype error = RangeError string | TypeError

text \<open>
  \<^verbatim>\<open>getBlock(x, y): Block {
    if (x <= this.map.length) {
      if (y <= this.map[x].length) { return this.map[x][y]; }
      throw new RangeError("y is out of bounds"); }
    throw new RangeError("x is out of bounds"); }\<close>
  Reading \<^verbatim>\<open>.length\<close> of an undefined \<^verbatim>\<open>this.map[x]\<close> throws a TypeError.
\<close>

definition getBlock :: "blockmap \<Rightarrow> int \<Rightarrow> int \<Rightarrow> error + Block option" where
  "getBlock m x y =
     (if x \<le> int (alength m) then
        (case elems m x of
           None \<Rightarrow> Inl TypeError
         | Some column \<Rightarrow>
             if y \<le> int (alength column) then Inr (elems column y)
             else Inl (RangeError ''y is out of bounds''))
      else Inl (RangeError ''x is out of bounds''))"

section \<open>Line drawing\<close>

text \<open>
  The loop of \<^verbatim>\<open>drawLine\<close>:
  \<^verbatim>\<open>while (!(x0 === x1 && y0 === y1)) {
    this.setBlock(x0, y0, thickness, color);
    var e2 = err;
    if (e2 > -dx) { err -= dy; x0 += sx; }
    if (e2 < dy) { err += dx; y0 += sy; } }\<close>
  The loop may run forever from an arbitrary state, so it is a partial function and
  \<open>None\<close> stands for not returning. \<open>err\<close> is a rational: it starts at half an
  integer. The last argument is a log of the positions passed to \<^verbatim>\<open>setBlock\<close>, in
  call order; it takes no part in the computation.
\<close>

partial_function (option) drawLine_loop ::
  "int \<Rightarrow> int \<Rightarrow> int \<Rightarrow> int \<Rightarrow> int \<Rightarrow> int \<Rightarrow> int \<Rightarrow> string \<Rightarrow>
   blockmap \<Rightarrow> int \<Rightarrow> int \<Rightarrow> rat \<Rightarrow> (int \<times> int) list \<Rightarrow> (blockmap \<times> (int \<times> int) list) option"
where
  "drawLine_loop x1 y1 dx sx dy sy thickness color m x0 y0 err visited =
     (if \<not> (x0 = x1 \<and> y0 = y1) then
        let m' = setBlock m x0 y0 thickness (Some color);
            e2 = err;
            err' = (if e2 > - of_int dx then err - of_int dy else err);
            x0' = (if e2 > - of_int dx then x0 + sx else x0);
            err'' = (if e2 < of_int dy then err' + of_int dx else err');
            y0' = (if e2 < of_int dy then y0 + sy else y0)
        in drawLine_loop x1 y1 dx sx dy sy thickness color m' x0' y0' err'' (visited @ [(x0, y0)])
      else Some (m, visited))"

text \<open>
  \<^verbatim>\<open>drawLine(x0, x1, y0, y1, thickness, color = "#000000") {
    var dx = Math.abs(x1 - x0);  var sx = (x0 < x1) ? 1 : -1;
    var dy = Math.abs(y1 - y0);  var sy = (y0 < y1) ? 1 : -1;
    var err = ((dx > dy) ? dx : -dy) / 2;
    while ... }\<close>
  The parameters come in the order \<open>x0, x1, y0, y1\<close>: the line runs from \<open>(x0, y0)\<close>
  to \<open>(x1, y1)\<close>. The result is the grid after the call, with the log of the loop.
\<close>

definition drawLine ::
  "blockmap \<Rightarrow> int \<Rightarrow> int \<Rightarrow> int \<Rightarrow> int \<Rightarrow> int \<Rightarrow> string option \<Rightarrow> (blockmap \<times> (int \<times> int) list) option"
where
  "drawLine m x0 x1 y0 y1 thickness color =
     (let dx = \<bar>x1 - x0\<bar>;
          sx = (if x0 < x1 then 1 else - 1);
          dy = \<bar>y1 - y0\<bar>;
          sy = (if y0 < y1 then 1 else - 1);
          err = (if dx > dy then of_int dx else - of_int dy) / 2
      in drawLine_loop x1 y1 dx sx dy sy thickness (color_or_default color) m x0 y0 err [])"

declare drawLine_loop.simps [code]

text \<open>
  The grid after the calls \<^verbatim>\<open>this.setBlock(x, y, thickness, color)\<close> at the positions
  of a list, in order: what the loop has done to the grid when its log is that list.
\<close>

definition setBlocks :: "int \<Rightarrow> string \<Rightarrow> (int \<times> int) list \<Rightarrow> blockmap \<Rightarrow> blockmap" where
  "setBlocks thickness color ps m = fold (\<lambda>(x, y) g. setBlock g x y thickness (Some color)) ps m"

section \<open>Tree generation\<close>

text \<open>
  JavaScript numbers that need not be integers (coordinates, angles, random values) are
  real numbers here, with exact arithmetic. \<^verbatim>\<open>Math.cos\<close>, \<^verbatim>\<open>Math.sin\<close> and the
  successive results of \<^verbatim>\<open>Math.random()\<close> belong to the platform, not to this program:
  \<^verbatim>\<open>drawTree\<close> takes them as the parameters \<open>Math_cos\<close>, \<open>Math_sin\<close> and
  \<open>Math_random\<close>, where \<open>Math_random k\<close> is the result of call number \<open>k\<close>.
\<close>

text \<open>\<^verbatim>\<open>private deg2Rad: number = Math.PI / 180.0;\<close>\<close>

definition deg2Rad :: real where
  "deg2Rad = pi / 180"

text \<open>\<^verbatim>\<open>Math.round\<close>: the nearest integer, a tie going up.\<close>

definition Math_round :: "real \<Rightarrow> int" where
  "Math_round v = \<lfloor>v + 1 / 2\<rfloor>"

definition Math_floor :: "real \<Rightarrow> int" where
  "Math_floor v = \<lfloor>v\<rfloor>"

text \<open>
  \<^verbatim>\<open>v << 0\<close>: the operand converted to a signed 32-bit integer (truncated towards zero,
  then wrapped), shifted by nothing.
\<close>

definition shift_left_0 :: "real \<Rightarrow> int" where
  "shift_left_0 v =
     (let n = (if v < 0 then - \<lfloor>- v\<rfloor> else \<lfloor>v\<rfloor>);
          k = n mod 2 ^ 32
      in if 2 ^ 31 \<le> k then k - 2 ^ 32 else k)"

text \<open>
  \<^verbatim>\<open>n.toString(16)\<close> for an integer \<open>n\<close>: lower-case digits, no leading zero, no
  padding, a minus sign for a negative number.
\<close>

definition hex_digit :: "nat \<Rightarrow> char" where
  "hex_digit d = ''0123456789abcdef'' ! d"

fun radix16 :: "nat \<Rightarrow> string" where
  "radix16 n = (if n < 16 then [hex_digit n] else radix16 (n div 16) @ [hex_digit (n mod 16)])"

declare radix16.simps [simp del]

definition toString16 :: "int \<Rightarrow> string" where
  "toString16 n = (if n < 0 then CHR ''-'' # radix16 (nat (- n)) else radix16 (nat n))"

text \<open>
  \<^verbatim>\<open>random(min, max) { return Math.floor(Math.random() * (max - min + 1)) + min; }\<close>
  applied to \<open>r\<close>, the result of its call of \<^verbatim>\<open>Math.random()\<close>.
\<close>

definition FractalTree_random :: "real \<Rightarrow> int \<Rightarrow> int \<Rightarrow> int" where
  "FractalTree_random r min' max' = Math_floor (r * of_int (max' - min' + 1)) + min'"

text \<open>
  One call \<^verbatim>\<open>this.map.drawLine(x0, x1, y0, y1, thickness, color)\<close> made by
  \<^verbatim>\<open>drawTree\<close>: the value of \<^verbatim>\<open>depth\<close> in the invocation of \<^verbatim>\<open>drawTree\<close> that
  makes the call, then the six arguments it passes.
\<close>

datatype line_call =
  DrawLine (call_depth: int) int int int int (line_thickness: int) (line_color: string)

text \<open>
  What a run of \<^verbatim>\<open>drawTree\<close> changes: the grid \<^verbatim>\<open>this.map\<close> and how many times
  \<^verbatim>\<open>Math.random()\<close> has been called. \<open>lines\<close> is a log of the calls of
  \<^verbatim>\<open>drawLine\<close>, in call order; it takes no part in the computation.
\<close>

record tree_state =
  grid :: blockmap
  draws :: nat
  lines :: "line_call list"

text \<open>
  \<^verbatim>\<open>drawTree(x1, y1, angle, depth) {
    if (depth > 0) {
      var x2 = x1 + (Math.cos(angle * this.deg2Rad) * depth * 10);
      var y2 = y1 + (Math.sin(angle * this.deg2Rad) * depth * 10);
      var color = "#000000";
      if (depth < 3) { color = '#' + (Math.random() * 0xFFFFFF << 0).toString(16); }
      this.map.drawLine(Math.round(x1), Math.round(x2), Math.round(y1), Math.round(y2), depth, color);
      this.drawTree(x2, y2, angle - this.random(20, 30), depth - 1);
      this.drawTree(x2, y2, angle + this.random(20, 30), depth - 1); } }\<close>
  The result is \<open>None\<close> when a call of \<^verbatim>\<open>drawLine\<close> does not return.
\<close>

function drawTree ::
  "(real \<Rightarrow> real) \<Rightarrow> (real \<Rightarrow> real) \<Rightarrow> (nat \<Rightarrow> real) \<Rightarrow>
   tree_state \<Rightarrow> real \<Rightarrow> real \<Rightarrow> real \<Rightarrow> int \<Rightarrow> tree_state option"
where
  "drawTree Math_cos Math_sin Math_random st x1 y1 angle depth =
     (if depth > 0 then
        let x2 = x1 + Math_cos (angle * deg2Rad) * of_int depth * 10;
            y2 = y1 + Math_sin (angle * deg2Rad) * of_int depth * 10;
            color = (if depth < 3
                     then CHR ''#'' # toString16 (shift_left_0 (Math_random (draws st) * 16777215))
                     else ''#000000'');
            st1 = (if depth < 3 then st\<lparr>draws := Suc (draws st)\<rparr> else st)
        in case drawLine (grid st1) (Math_round x1) (Math_round x2) (Math_round y1) (Math_round y2)
                  depth (Some color) of
             None \<Rightarrow> None
           | Some (m', visited) \<Rightarrow>
               let st2 = st1\<lparr>grid := m',
                              lines := lines st1 @
                                [DrawLine depth
                                   (Math_round x1) (Math_round x2) (Math_round y1) (Math_round y2)
                                   depth color]\<rparr>;
                   r1 = FractalTree_random (Math_random (draws st2)) 20 30;
                   st3 = st2\<lparr>draws := Suc (draws st2)\<rparr>
               in (case drawTree Math_cos Math_sin Math_random st3 x2 y2 (angle - of_int r1) (depth - 1) of
                     None \<Rightarrow> None
                   | Some st4 \<Rightarrow>
                       let r2 = FractalTree_random (Math_random (draws st4)) 20 30;
                           st5 = st4\<lparr>draws := Suc (draws st4)\<rparr>
                       in drawTree Math_cos Math_sin Math_random st5 x2 y2 (angle + of_int r2) (depth - 1))
      else Some st)"
  by pat_completeness auto
termination
  by (relation "measure (\<lambda>(c, s, r, st, x, y, a, d). nat d)") auto

declare drawTree.simps [simp del]

text \<open>
  \<^verbatim>\<open>constructor(depth, map) { this.map = map; this.drawTree(450, 700, -90, depth); }\<close>
\<close>

definition FractalTree ::
  "(real \<Rightarrow> real) \<Rightarrow> (real \<Rightarrow> real) \<Rightarrow> (nat \<Rightarrow> real) \<Rightarrow> int \<Rightarrow> blockmap \<Rightarrow> tree_state option"
where
  "FractalTree Math_cos Math_sin Math_random depth m =
     drawTree Math_cos Math_sin Math_random \<lparr>grid = m, draws = 0, lines = []\<rparr> 450 700 (- 90) depth"

text \<open>
  The specification's form of a color, \<^verbatim>\<open>"#RRGGBB"\<close>: a hash sign and six hexadecimal
  digits.
\<close>

definition hex_RRGGBB :: "string \<Rightarrow> bool" where
  "hex_RRGGBB s \<longleftrightarrow>
     length s = 7 \<and> take 1 s = ''#'' \<and>
     list_all (\<lambda>ch. ch \<in> set ''0123456789abcdefABCDEF'') (drop 1 s)"

section \<open>Double-precision numbers\<close>

text \<open>
  A JavaScript number is an IEEE 754 double, and every arithmetic operation returns the
  double nearest to its exact result. For the integers and half-integers that
  \<^verbatim>\<open>drawLine\<close> meets on a grid the nearest double is the exact result. Far from the
  origin it is not: from \<open>2 ^ 53\<close> on the doubles are even integers only, so there
  \<^verbatim>\<open>x0 += sx\<close> may leave \<open>x0\<close> where it was. The following sections give the
  rounding, and then the loop of \<^verbatim>\<open>drawLine\<close> and \<^verbatim>\<open>drawTree\<close> once more with
  every arithmetic operation of the source rounded. Overflow to \<^verbatim>\<open>Infinity\<close> and
  \<^verbatim>\<open>NaN\<close> are not modelled (\<open>to_double\<close> rounds as if the exponent had no upper
  limit), nor is the limit an engine puts on the depth of its call stack.
\<close>

text \<open>\<open>2 ^ k\<close> for an integer \<open>k\<close>.\<close>

definition pow2 :: "int \<Rightarrow> real" where
  "pow2 k = (if 0 \<le> k then 2 ^ nat k else 1 / 2 ^ nat (- k))"

text \<open>The integer nearest to a real, a tie going to the even one.\<close>

definition round_ties_even :: "real \<Rightarrow> int" where
  "round_ties_even v =
     (let n = \<lfloor>v\<rfloor>; f = v - of_int n
      in if f < 1 / 2 then n else if 1 / 2 < f then n + 1 else if even n then n else n + 1)"

text \<open>
  The double nearest to a real \<open>v\<close>, a tie going to the double with the even
  significand. With \<open>e\<close> the exponent of \<open>v\<close>, that is
  \<open>2 ^ e \<le> \<bar>v\<bar> < 2 ^ (e + 1)\<close>, the doubles around \<open>v\<close> are the multiples of
  \<open>2 ^ (e - 52)\<close>: 53 significant bits. Below \<open>2 ^ (- 1022)\<close> the exponent stays at
  \<open>- 1022\<close> (the subnormal numbers).
\<close>

definition to_double :: "real \<Rightarrow> real" where
  "to_double v =
     (if v = 0 then 0
      else let e = max \<lfloor>log 2 \<bar>v\<bar>\<rfloor> (- 1022);
               ulp = pow2 (e - 52)
           in of_int (round_ties_even (v / ulp)) * ulp)"

text \<open>
  The double nearest to an integer, as an integer: a double of magnitude \<open>2 ^ 52\<close> or
  more is an integer, and an integer of magnitude below \<open>2 ^ 53\<close> is a double.
\<close>

definition double_int :: "int \<Rightarrow> int" where
  "double_int n = \<lfloor>to_double (of_int n)\<rfloor>"

section \<open>Line drawing in doubles\<close>

text \<open>
  The loop of \<^verbatim>\<open>drawLine\<close>,
  \<^verbatim>\<open>while (!(x0 === x1 && y0 === y1)) {
    this.setBlock(x0, y0, thickness, color);
    var e2 = err;
    if (e2 > -dx) { err -= dy; x0 += sx; }
    if (e2 < dy) { err += dx; y0 += sy; } }\<close>
  with the results of \<^verbatim>\<open>err -= dy\<close>, \<^verbatim>\<open>x0 += sx\<close>, \<^verbatim>\<open>err += dx\<close> and
  \<^verbatim>\<open>y0 += sy\<close> rounded. The comparisons and the negation \<^verbatim>\<open>-dx\<close> are exact on
  doubles. As in \<open>drawLine_loop\<close>, \<open>None\<close> stands for not returning and the last
  argument is the log of the positions passed to \<^verbatim>\<open>setBlock\<close>.
\<close>

partial_function (option) drawLine_loop_double ::
  "int \<Rightarrow> int \<Rightarrow> int \<Rightarrow> int \<Rightarrow> int \<Rightarrow> int \<Rightarrow> int \<Rightarrow> string \<Rightarrow>
   blockmap \<Rightarrow> int \<Rightarrow> int \<Rightarrow> real \<Rightarrow> (int \<times> int) list \<Rightarrow> (blockmap \<times> (int \<times> int) list) option"
where
  "drawLine_loop_double x1 y1 dx sx dy sy thickness color m x0 y0 err visited =
     (if \<not> (x0 = x1 \<and> y0 = y1) then
        let m' = setBlock m x0 y0 thickness (Some color);
            e2 = err;
            err' = (if e2 > - of_int dx then to_double (err - of_int dy) else err);
            x0' = (if e2 > - of_int dx then double_int (x0 + sx) else x0);
            err'' = (if e2 < of_int dy then to_double (err' + of_int dx) else err');
            y0' = (if e2 < of_int dy then double_int (y0 + sy) else y0)
        in drawLine_loop_double x1 y1 dx sx dy sy thickness color m' x0' y0' err''
             (visited @ [(x0, y0)])
      else Some (m, visited))"

text \<open>
  \<^verbatim>\<open>drawLine(x0, x1, y0, y1, thickness, color = "#000000") {
    var dx = Math.abs(x1 - x0);  var sx = (x0 < x1) ? 1 : -1;
    var dy = Math.abs(y1 - y0);  var sy = (y0 < y1) ? 1 : -1;
    var err = ((dx > dy) ? dx : -dy) / 2;
    while ... }\<close>
  with the differences \<^verbatim>\<open>x1 - x0\<close> and \<^verbatim>\<open>y1 - y0\<close> and the division by 2 rounded;
  \<^verbatim>\<open>Math.abs\<close> is exact. The arguments are integers: \<^verbatim>\<open>drawTree\<close> passes results
  of \<^verbatim>\<open>Math.round\<close>.
\<close>

definition drawLine_double ::
  "blockmap \<Rightarrow> int \<Rightarrow> int \<Rightarrow> int \<Rightarrow> int \<Rightarrow> int \<Rightarrow> string option \<Rightarrow> (blockmap \<times> (int \<times> int) list) option"
where
  "drawLine_double m x0 x1 y0 y1 thickness color =
     (let dx = \<bar>double_int (x1 - x0)\<bar>;
          sx = (if x0 < x1 then 1 else - 1);
          dy = \<bar>double_int (y1 - y0)\<bar>;
          sy = (if y0 < y1 then 1 else - 1);
          err = to_double (of_int (if dx > dy then dx else - dy) / 2)
      in drawLine_loop_double x1 y1 dx sx dy sy thickness (color_or_default color) m x0 y0 err [])"

section \<open>Tree generation in doubles\<close>

text \<open>\<^verbatim>\<open>Math.PI\<close>: the double nearest to \<open>pi\<close>.\<close>

definition Math_PI :: real where
  "Math_PI = to_double pi"

text \<open>\<^verbatim>\<open>private deg2Rad: number = Math.PI / 180.0;\<close> with the division rounded.\<close>

definition deg2Rad_double :: real where
  "deg2Rad_double = to_double (Math_PI / 180)"

text \<open>
  \<^verbatim>\<open>random(min, max) { return Math.floor(Math.random() * (max - min + 1)) + min; }\<close>
  applied to \<open>r\<close>, the result of its call of \<^verbatim>\<open>Math.random()\<close>, with the
  difference, the two sums and the product rounded.
\<close>

definition FractalTree_random_double :: "real \<Rightarrow> int \<Rightarrow> int \<Rightarrow> int" where
  "FractalTree_random_double r min' max' =
     double_int (Math_floor (to_double (r * of_int (double_int (double_int (max' - min') + 1)))) + min')"

text \<open>
  \<^verbatim>\<open>drawTree(x1, y1, angle, depth) {
    if (depth > 0) {
      var x2 = x1 + (Math.cos(angle * this.deg2Rad) * depth * 10);
      var y2 = y1 + (Math.sin(angle * this.deg2Rad) * depth * 10);
      var color = "#000000";
      if (depth < 3) { color = '#' + (Math.random() * 0xFFFFFF << 0).toString(16); }
      this.map.drawLine(Math.round(x1), Math.round(x2), Math.round(y1), Math.round(y2), depth, color);
      this.drawTree(x2, y2, angle - this.random(20, 30), depth - 1);
      this.drawTree(x2, y2, angle + this.random(20, 30), depth - 1); } }\<close>
  with every arithmetic operation rounded: \<^verbatim>\<open>angle * this.deg2Rad\<close>, the product of
  the cosine or sine with \<^verbatim>\<open>depth\<close>, the product with 10, the sum with \<^verbatim>\<open>x1\<close> or
  \<^verbatim>\<open>y1\<close>, \<^verbatim>\<open>Math.random() * 0xFFFFFF\<close>, \<^verbatim>\<open>angle - this.random(20, 30)\<close>,
  \<^verbatim>\<open>angle + this.random(20, 30)\<close> and \<^verbatim>\<open>depth - 1\<close>. \<^verbatim>\<open>Math.round\<close> of a double
  is an integer that is a double. The function is partial, since a call of
  \<^verbatim>\<open>drawLine\<close> may not return; \<open>Option.bind\<close> hands \<open>None\<close> on. The state and the
  log of the calls of \<^verbatim>\<open>drawLine\<close> are those of \<open>drawTree\<close>.
\<close>

partial_function (option) drawTree_double ::
  "(real \<Rightarrow> real) \<Rightarrow> (real \<Rightarrow> real) \<Rightarrow> (nat \<Rightarrow> real) \<Rightarrow>
   tree_state \<Rightarrow> real \<Rightarrow> real \<Rightarrow> real \<Rightarrow> int \<Rightarrow> tree_state option"
where
  "drawTree_double Math_cos Math_sin Math_random st x1 y1 angle depth =
     (if depth > 0 then
        let x2 = to_double (x1 + to_double (to_double
                   (Math_cos (to_double (angle * deg2Rad_double)) * of_int depth) * 10));
            y2 = to_double (y1 + to_double (to_double
                   (Math_sin (to_double (angle * deg2Rad_double)) * of_int depth) * 10));
            color = (if depth < 3
                     then CHR ''#'' #
                          toString16 (shift_left_0 (to_double (Math_random (draws st) * 16777215)))
                     else ''#000000'');
            st1 = (if depth < 3 then st\<lparr>draws := Suc (draws st)\<rparr> else st)
        in Option.bind
             (drawLine_double (grid st1) (Math_round x1) (Math_round x2) (Math_round y1)
                (Math_round y2) depth (Some color))
             (\<lambda>drawn.
               let st2 = st1\<lparr>grid := fst drawn,
                              lines := lines st1 @
                                [DrawLine depth
                                   (Math_round x1) (Math_round x2) (Math_round y1) (Math_round y2)
                                   depth color]\<rparr>;
                   r1 = FractalTree_random_double (Math_random (draws st2)) 20 30;
                   st3 = st2\<lparr>draws := Suc (draws st2)\<rparr>
               in Option.bind
                    (drawTree_double Math_cos Math_sin Math_random st3 x2 y2
                       (to_double (angle - of_int r1)) (double_int (depth - 1)))
                    (\<lambda>st4.
                       let r2 = FractalTree_random_double (Math_random (draws st4)) 20 30;
                           st5 = st4\<lparr>draws := Suc (draws st4)\<rparr>
                       in drawTree_double Math_cos Math_sin Math_random st5 x2 y2
                            (to_double (angle + of_int r2)) (double_int (depth - 1))))
      else Some st)"

text \<open>
  The logged calls of \<^verbatim>\<open>drawLine\<close> made again, in order, from a grid \<open>m\<close>: the grid
  they leave, or \<open>None\<close> if one of them does not return.
\<close>

fun replay_lines :: "line_call list \<Rightarrow> blockmap \<Rightarrow> blockmap option" where
  "replay_lines [] m = Some m"
| "replay_lines (DrawLine d x0 x1 y0 y1 thickness color # ls) m =
     (case drawLine_double m x0 x1 y0 y1 thickness (Some color) of
        None \<Rightarrow> None
      | Some (m', visited) \<Rightarrow> replay_lines ls m')"

section \<open>Facts about grids\<close>

lemma fold_put_alength:
  "k \<le> alength a \<Longrightarrow> alength (fold (\<lambda>i m. array_put m (int i) v) [0..<k] a) = alength a"
  by (induction k) (auto simp: array_put_def)

lemma fold_put_elems:
  "elems (fold (\<lambda>i m. array_put m (int i) v) [0..<k] a) x =
     (if 0 \<le> x \<and> x < int k then Some v else elems a x)"
  by (induction k) (auto simp: array_put_def)

lemma alength_BlockMap: "alength (BlockMap w h) = w"
  by (simp add: BlockMap_def fold_put_alength new_Array_def)

lemma elems_BlockMap:
  "elems (BlockMap w h) x = (if 0 \<le> x \<and> x < int w then Some (new_Array h) else None)"
  by (simp add: BlockMap_def fold_put_elems new_Array_def)

lemma grid_of_BlockMap: "grid_of w h (BlockMap w h)"
  by (simp add: grid_of_def alength_BlockMap elems_BlockMap new_Array_def)


text \<open>What one \<^verbatim>\<open>setBlock\<close> does to the value of \<^verbatim>\<open>this.map[i][j]\<close>.\<close>

lemma cell_setBlock:
  "cell (setBlock m x y thickness color) i j =
     (if i = x \<and> j = y \<and> x < int (alength m) \<and>
         (\<exists>column. elems m x = Some column \<and> y < int (alength column))
      then Some (Block (color_or_default color) thickness)
      else cell m i j)"
  by (auto simp: cell_def setBlock_def array_put_def split: option.splits)

lemma alength_setBlock: "alength (setBlock m x y thickness color) = alength m"
  by (simp add: setBlock_def split: option.splits)

lemma grid_of_column:
  assumes "grid_of w h m" and "elems m x = Some column"
  shows "0 \<le> x" and "x < int w" and "alength column = h"
proof -
  from assms(1)
  have a: "0 \<le> x \<and> x < int w \<longrightarrow> (\<exists>c. elems m x = Some c \<and> alength c = h)"
    and b: "\<not> (0 \<le> x \<and> x < int w) \<longrightarrow> elems m x = None"
    unfolding grid_of_def by blast+
  from b assms(2) show "0 \<le> x" and "x < int w" by auto
  with a assms(2) show "alength column = h" by auto
qed

lemma grid_of_inside:
  assumes "grid_of w h m" and "0 \<le> x" and "x < int w"
  shows "\<exists>column. elems m x = Some column \<and> alength column = h"
  using assms unfolding grid_of_def by blast

lemma grid_of_setBlock:
  assumes "grid_of w h m"
  shows "grid_of w h (setBlock m x y thickness color)"
proof (cases "x < int (alength m) \<and> (\<exists>column. elems m x = Some column \<and> y < int (alength column))")
  case True
  then obtain column where column: "elems m x = Some column" "y < int (alength column)"
    by blast
  have inside: "0 \<le> x \<and> x < int w"
    using grid_of_column[OF assms column(1)] by simp
  have h: "alength column = h"
    using grid_of_column[OF assms column(1)] by simp
  let ?b = "Block (color_or_default color) thickness"
  have eq: "setBlock m x y thickness color = m\<lparr>elems := (elems m)(x \<mapsto> array_put column y ?b)\<rparr>"
    using True column by (simp add: setBlock_def)
  have "alength (array_put column y ?b) = h"
    using column(2) h by (simp add: array_put_def)
  then show ?thesis
    unfolding eq using assms inside by (auto simp: grid_of_def)
next
  case False
  then have "setBlock m x y thickness color = m"
    by (auto simp: setBlock_def split: option.splits)
  then show ?thesis using assms by simp
qed

lemma setBlock_outside:
  assumes "grid_of w h m" and "x < 0 \<or> int w \<le> x \<or> int h \<le> y"
  shows "setBlock m x y thickness color = m"
proof (cases "0 \<le> x \<and> x < int w")
  case True
  then obtain column where "elems m x = Some column" "alength column = h"
    using grid_of_inside[OF assms(1)] by blast
  then show ?thesis using assms(2) True by (simp add: setBlock_def)
next
  case False
  then have "elems m x = None" using assms(1) unfolding grid_of_def by blast
  then show ?thesis by (simp add: setBlock_def)
qed



lemma getBlock_inside:
  assumes "grid_of w h m" and "0 \<le> x" and "x < int w" and "y \<le> int h"
  shows "getBlock m x y = Inr (cell m x y)"
proof -
  obtain column where "elems m x = Some column" "alength column = h"
    using grid_of_inside[OF assms(1-3)] by blast
  moreover have "alength m = w" using assms(1) by (simp add: grid_of_def)
  ultimately show ?thesis using assms(3,4) by (simp add: getBlock_def cell_def)
qed

lemma cell_setBlock_same:
  assumes "grid_of w h m" and "0 \<le> x" and "x < int w" and "y < int h"
  shows "cell (setBlock m x y thickness color) x y = Some (Block (color_or_default color) thickness)"
proof -
  obtain column where "elems m x = Some column" "alength column = h"
    using grid_of_inside[OF assms(1-3)] by blast
  moreover have "alength m = w" using assms(1) by (simp add: grid_of_def)
  ultimately show ?thesis using assms(3,4) by (simp add: cell_setBlock)
qed

section \<open>The loop of drawLine\<close>

lemma loop_stop:
  "drawLine_loop x1 y1 dx sx dy sy t c m x1 y1 err vs = Some (m, vs)"
  by (subst drawLine_loop.simps) simp




lemma mult_small_zero:
  fixes r d :: int
  assumes "0 \<le> r" "0 < d" "2 * (r * d) \<le> d"
  shows "r = 0"
proof (rule ccontr)
  assume "r \<noteq> 0"
  with assms have "1 \<le> r" by simp
  then have "1 * d \<le> r * d" using assms(2) by (intro mult_right_mono) simp_all
  with assms show False by simp
qed



lemma pos_of_mult_pos:
  fixes r d :: int
  assumes "0 < r * d" "0 < d"
  shows "0 < r"
  using assms by (simp add: zero_less_mult_iff)




section \<open>Facts about drawTree\<close>

lemma drawTree_0: "drawTree Math_cos Math_sin Math_random st x1 y1 angle 0 = Some st"
  by (simp add: drawTree.simps)

lemma drawTree_pos:
  "0 < depth \<Longrightarrow> drawTree Math_cos Math_sin Math_random st x1 y1 angle depth =
     (let x2 = x1 + Math_cos (angle * deg2Rad) * of_int depth * 10;
          y2 = y1 + Math_sin (angle * deg2Rad) * of_int depth * 10;
          color = (if depth < 3
                   then CHR ''#'' # toString16 (shift_left_0 (Math_random (draws st) * 16777215))
                   else ''#000000'');
          st1 = (if depth < 3 then st\<lparr>draws := Suc (draws st)\<rparr> else st)
      in case drawLine (grid st1) (Math_round x1) (Math_round x2) (Math_round y1) (Math_round y2)
                depth (Some color) of
           None \<Rightarrow> None
         | Some (m', visited) \<Rightarrow>
             let st2 = st1\<lparr>grid := m',
                            lines := lines st1 @
                              [DrawLine depth
                                 (Math_round x1) (Math_round x2) (Math_round y1) (Math_round y2)
                                 depth color]\<rparr>;
                 r1 = FractalTree_random (Math_random (draws st2)) 20 30;
                 st3 = st2\<lparr>draws := Suc (draws st2)\<rparr>
             in (case drawTree Math_cos Math_sin Math_random st3 x2 y2 (angle - of_int r1) (depth - 1) of
                   None \<Rightarrow> None
                 | Some st4 \<Rightarrow>
                     let r2 = FractalTree_random (Math_random (draws st4)) 20 30;
                         st5 = st4\<lparr>draws := Suc (draws st4)\<rparr>
                     in drawTree Math_cos Math_sin Math_random st5 x2 y2 (angle + of_int r2) (depth - 1)))"
  by (subst drawTree.simps) (simp only: if_True)

lemma radix16_digit: "n < 16 \<Longrightarrow> radix16 n = [hex_digit n]"
  by (subst radix16.simps) simp

lemma radix16_more: "\<not> n < 16 \<Longrightarrow> radix16 n = radix16 (n div 16) @ [hex_digit (n mod 16)]"
  by (subst radix16.simps) simp

lemma leaf_color: "CHR ''#'' # toString16 (shift_left_0 (16777215 / 32)) = ''#7ffff''"
  by (simp add: shift_left_0_def toString16_def radix16_digit radix16_more hex_digit_def)

section \<open>Facts about rounding to doubles\<close>

lemma round_ties_even_of_int: "round_ties_even (of_int n) = n"
  by (simp add: round_ties_even_def)

lemma round_ties_even_le:
  assumes "v \<le> of_int b"
  shows "round_ties_even v \<le> b"
proof (cases "v = of_int b")
  case True
  then show ?thesis by (simp add: round_ties_even_of_int)
next
  case False
  with assms have "v < of_int b" by simp
  then have "\<lfloor>v\<rfloor> < b" by (simp add: floor_less_iff)
  then show ?thesis by (simp add: round_ties_even_def Let_def)
qed

lemma round_ties_even_ge:
  assumes "of_int a \<le> v"
  shows "a \<le> round_ties_even v"
proof -
  have "a \<le> \<lfloor>v\<rfloor>" using assms by (simp add: le_floor_iff)
  then show ?thesis by (simp add: round_ties_even_def Let_def)
qed

lemma pow2_nonpos: "k \<le> 0 \<Longrightarrow> pow2 k = 1 / 2 ^ nat (- k)"
  by (cases "k = 0") (simp_all add: pow2_def)

lemma exponent_less:
  assumes "v \<noteq> 0" and "\<bar>v\<bar> < 2 ^ m"
  shows "\<lfloor>log 2 \<bar>v\<bar>\<rfloor> < int m"
proof -
  have "log 2 \<bar>v\<bar> < real m"
    using assms by (simp add: log_less_iff powr_realpow)
  then show ?thesis by (simp add: floor_less_iff)
qed

text \<open>On a value below \<open>2 ^ 53\<close> the unit in the last place is \<open>1 / 2 ^ j\<close>.\<close>

lemma to_double_small:
  assumes "v \<noteq> 0" and "\<bar>v\<bar> < 2 ^ m" and "m \<le> 53"
  shows "\<exists>j. 53 \<le> j + m \<and> to_double v = of_int (round_ties_even (v * 2 ^ j)) / 2 ^ j"
proof -
  define l where "l = \<lfloor>log 2 \<bar>v\<bar>\<rfloor>"
  define e where "e = max l (- 1022)"
  have "l < int m" unfolding l_def using assms(1,2) by (rule exponent_less)
  then have e: "e - 52 \<le> int m - 53" "e - 52 \<le> 0" using assms(3) unfolding e_def by linarith+
  define j where "j = nat (52 - e)"
  have j: "53 \<le> j + m" using e by (simp add: j_def)
  have "pow2 (e - 52) = 1 / 2 ^ j" using e(2) by (simp add: pow2_nonpos j_def)
  then have "to_double v = of_int (round_ties_even (v * 2 ^ j)) / 2 ^ j"
    using assms(1) by (simp add: to_double_def Let_def e_def l_def)
  with j show ?thesis by blast
qed

lemma to_double_exact:
  assumes "v * 2 ^ k = of_int n" and "\<bar>v\<bar> < 2 ^ m" and "k + m \<le> 53"
  shows "to_double v = v"
proof (cases "v = 0")
  case True
  then show ?thesis by (simp add: to_double_def)
next
  case False
  obtain j where j: "53 \<le> j + m" "to_double v = of_int (round_ties_even (v * 2 ^ j)) / 2 ^ j"
    using to_double_small[OF False assms(2)] assms(3) by auto
  have kj: "k \<le> j" using j(1) assms(3) by simp
  have "v * 2 ^ j = v * 2 ^ k * 2 ^ (j - k)"
    using kj by (simp add: power_add[symmetric])
  also have "\<dots> = of_int (n * 2 ^ (j - k))" using assms(1) by simp
  finally have "round_ties_even (v * 2 ^ j) = n * 2 ^ (j - k)"
    by (simp only: round_ties_even_of_int)
  then have "to_double v = of_int (n * 2 ^ (j - k)) / 2 ^ j" using j(2) by simp
  also have "\<dots> = (v * 2 ^ k * 2 ^ (j - k)) / 2 ^ j" using assms(1) by simp
  also have "\<dots> = v"
  proof -
    have "(2::real) ^ k * 2 ^ (j - k) = 2 ^ j" using kj by (simp add: power_add[symmetric])
    then have "v * 2 ^ k * 2 ^ (j - k) = v * 2 ^ j" by (simp only: mult.assoc)
    then show ?thesis by (simp only: nonzero_mult_div_cancel_right power_eq_0_iff) simp
  qed
  finally show ?thesis .
qed

lemma to_double_bound:
  assumes "\<bar>v\<bar> \<le> of_int K" and "K \<le> 2 ^ 52"
  shows "\<bar>to_double v\<bar> \<le> of_int K"
proof (cases "v = 0")
  case True
  then show ?thesis using assms(1) by (simp add: to_double_def)
next
  case False
  have "of_int K \<le> (2 ^ 52 :: real)" using assms(2) by (metis of_int_le_iff of_int_numeral of_int_power)
  then have "\<bar>v\<bar> < 2 ^ 53" using assms(1) by simp
  then obtain j where j: "to_double v = of_int (round_ties_even (v * 2 ^ j)) / 2 ^ j"
    using to_double_small[OF False, of 53] by auto
  have "v \<le> of_int K" "- v \<le> of_int K" using assms(1) by (simp_all add: abs_le_iff)
  then have "v * 2 ^ j \<le> of_int K * 2 ^ j" "(- v) * 2 ^ j \<le> of_int K * 2 ^ j"
    by (intro mult_right_mono; simp)+
  then have "v * 2 ^ j \<le> of_int (K * 2 ^ j)" "of_int (- (K * 2 ^ j)) \<le> v * 2 ^ j"
    by simp_all
  then have "round_ties_even (v * 2 ^ j) \<le> K * 2 ^ j" "- (K * 2 ^ j) \<le> round_ties_even (v * 2 ^ j)"
    by (simp_all only: round_ties_even_le round_ties_even_ge)
  then have "\<bar>round_ties_even (v * 2 ^ j)\<bar> \<le> K * 2 ^ j" by simp
  then have "\<bar>of_int (round_ties_even (v * 2 ^ j)) :: real\<bar> \<le> of_int (K * 2 ^ j)"
    by (simp only: of_int_abs[symmetric] of_int_le_iff)
  then have "\<bar>of_int (round_ties_even (v * 2 ^ j)) :: real\<bar> / 2 ^ j \<le> of_int K"
    by (simp add: pos_divide_le_eq)
  then show ?thesis using j by simp
qed

lemma double_int_exact: "\<bar>n\<bar> < 2 ^ 53 \<Longrightarrow> double_int n = n"
proof -
  assume "\<bar>n\<bar> < 2 ^ 53"
  then have "\<bar>of_int n :: real\<bar> < 2 ^ 53"
    by (metis of_int_abs of_int_less_iff of_int_numeral of_int_power)
  then have "to_double (of_int n) = of_int n"
    using to_double_exact[of "of_int n" 0 n 53] by simp
  then show ?thesis by (simp add: double_int_def)
qed

lemma half_exact: "\<bar>E\<bar> < 2 ^ 53 \<Longrightarrow> to_double (of_int E / 2) = of_int E / 2"
proof -
  assume "\<bar>E\<bar> < 2 ^ 53"
  then have "\<bar>of_int E :: real\<bar> < 2 ^ 53"
    by (metis of_int_abs of_int_less_iff of_int_numeral of_int_power)
  then have "\<bar>of_int E / 2 :: real\<bar> < 2 ^ 52" by simp
  then show ?thesis
    using to_double_exact[of "of_int E / 2" 1 E 52] by simp
qed

text \<open>Beyond \<open>2 ^ 53\<close>: the odd integer \<open>2 ^ 53 + 1\<close> is not a double.\<close>

lemma to_double_at:
  assumes "2 ^ nat e \<le> \<bar>v\<bar>" and "\<bar>v\<bar> < 2 ^ nat (e + 1)" and "0 \<le> e"
  shows "to_double v = of_int (round_ties_even (v / pow2 (e - 52))) * pow2 (e - 52)"
proof -
  have pos: "0 < \<bar>v\<bar>" using assms(1) by (smt (verit) zero_less_power)
  have a: "(2::real) powr (of_int e) = 2 ^ nat e"
    using assms(3) by (simp add: powr_real_of_int)
  have "(2::real) powr (of_int (e + 1)) = 2 ^ nat (e + 1)"
    using assms(3) by (subst powr_real_of_int) simp_all
  then have b: "(2::real) powr (of_int e + 1) = 2 ^ nat (e + 1)" by simp
  have "2 powr (of_int e) \<le> \<bar>v\<bar> \<and> \<bar>v\<bar> < 2 powr (of_int e + 1)"
    unfolding a b using assms(1,2) by blast
  then have "\<lfloor>log 2 \<bar>v\<bar>\<rfloor> = e"
    using pos floor_log_eq_powr_iff[of "\<bar>v\<bar>" 2 e] by simp
  then show ?thesis using pos assms(3) by (simp add: to_double_def Let_def)
qed

lemma double_int_absorbed: "double_int (2 ^ 53 + 1) = 2 ^ 53"
proof -
  have "to_double (2 ^ 53 + 1) = of_int (round_ties_even ((2 ^ 53 + 1) / pow2 (53 - 52))) * pow2 (53 - 52)"
    by (rule to_double_at) simp_all
  also have "\<dots> = 2 ^ 53"
    by (simp add: pow2_def round_ties_even_def Let_def)
  finally show ?thesis by (simp add: double_int_def)
qed

lemma to_double_0: "to_double 0 = 0"
  by (simp add: to_double_def)

lemma to_double_1: "to_double 1 = 1"
  using to_double_exact[of 1 0 1 1] by simp

lemma to_double_numeral: "(numeral k :: real) < 2 ^ 53 \<Longrightarrow> to_double (numeral k) = numeral k"
  using to_double_exact[of "numeral k" 0 "numeral k" 53] by simp

lemma to_double_half_numeral:
  "(numeral k :: real) < 2 ^ 53 \<Longrightarrow> to_double (numeral k / 2) = numeral k / 2"
  using to_double_exact[of "numeral k / 2" 1 "numeral k" 52] by simp

lemma to_double_half: "to_double (1 / 2) = 1 / 2"
  using to_double_exact[of "1 / 2" 1 1 0] by simp

lemma to_double_beyond: "to_double 9007199254741002 = 9007199254741002"
proof -
  have "to_double (2 ^ 53 + 10) = of_int (round_ties_even ((2 ^ 53 + 10) / pow2 (53 - 52))) * pow2 (53 - 52)"
    by (rule to_double_at) simp_all
  also have "\<dots> = 2 ^ 53 + 10"
    by (simp add: pow2_def round_ties_even_def Let_def)
  finally show ?thesis by simp
qed

section \<open>The loop of drawLine in doubles\<close>

lemma loop_double_stop:
  "drawLine_loop_double x1 y1 dx sx dy sy t c m x1 y1 err vs = Some (m, vs)"
  by (subst drawLine_loop_double.simps) simp

lemma loop_double_unfold:
  assumes "\<not> (x0 = x1 \<and> y0 = y1)"
  shows "drawLine_loop_double x1 y1 dx sx dy sy t c m x0 y0 err vs =
   drawLine_loop_double x1 y1 dx sx dy sy t c (setBlock m x0 y0 t (Some c))
     (if err > - of_int dx then double_int (x0 + sx) else x0)
     (if err < of_int dy then double_int (y0 + sy) else y0)
     (if err < of_int dy
      then to_double ((if err > - of_int dx then to_double (err - of_int dy) else err) + of_int dx)
      else (if err > - of_int dx then to_double (err - of_int dy) else err))
     (vs @ [(x0, y0)])"
  apply (rule trans[OF drawLine_loop_double.simps])
  using assms apply (simp only: Let_def if_True not_False_eq_True)
  done

lemma half_less_iff_real: "(of_int E / 2 < (of_int d :: real)) \<longleftrightarrow> E < 2 * d"
proof -
  have "(of_int E / 2 < (of_int d :: real)) \<longleftrightarrow> (of_int E :: real) < of_int (2 * d)"
    by (simp add: field_simps)
  then show ?thesis by (simp only: of_int_less_iff)
qed

lemma half_greater_iff_real: "(- of_int d < (of_int E / 2 :: real)) \<longleftrightarrow> - 2 * d < E"
proof -
  have "(- of_int d < (of_int E / 2 :: real)) \<longleftrightarrow> (of_int (- 2 * d) :: real) < of_int E"
    by (simp add: field_simps)
  then show ?thesis by (simp only: of_int_less_iff)
qed

lemma half_shift_real: "of_int E / 2 + of_int d = (of_int (E + 2 * d) / 2 :: real)"
  by (simp add: field_simps)

text \<open>One iteration where no operation rounds.\<close>

lemma loop_double_step:
  assumes "\<not> (x0 = x1 \<and> y0 = y1)"
    and "\<bar>x0 + sx\<bar> < 2 ^ 53" and "\<bar>y0 + sy\<bar> < 2 ^ 53"
    and "\<bar>E - 2 * dy\<bar> < 2 ^ 53" and "\<bar>E - 2 * dy + 2 * dx\<bar> < 2 ^ 53" and "\<bar>E + 2 * dx\<bar> < 2 ^ 53"
  shows "drawLine_loop_double x1 y1 dx sx dy sy t c m x0 y0 (of_int E / 2) vs =
   drawLine_loop_double x1 y1 dx sx dy sy t c (setBlock m x0 y0 t (Some c))
     (if - 2 * dx < E then x0 + sx else x0)
     (if E < 2 * dy then y0 + sy else y0)
     (of_int (if E < 2 * dy then (if - 2 * dx < E then E - 2 * dy else E) + 2 * dx
              else (if - 2 * dx < E then E - 2 * dy else E)) / 2)
     (vs @ [(x0, y0)])"
proof -
  have s1: "of_int E / 2 - of_int dy = (of_int (E - 2 * dy) / 2 :: real)"
    by (simp add: field_simps)
  have a: "to_double (of_int E / 2 - of_int dy) = of_int (E - 2 * dy) / 2"
    unfolding s1 by (rule half_exact[OF assms(4)])
  have s2: "of_int (E - 2 * dy) / 2 + of_int dx = (of_int (E - 2 * dy + 2 * dx) / 2 :: real)"
    by (rule half_shift_real)
  have b: "to_double (of_int (E - 2 * dy) / 2 + of_int dx) = of_int (E - 2 * dy + 2 * dx) / 2"
    unfolding s2 by (rule half_exact[OF assms(5)])
  have s3: "of_int E / 2 + of_int dx = (of_int (E + 2 * dx) / 2 :: real)"
    by (rule half_shift_real)
  have c: "to_double (of_int E / 2 + of_int dx) = of_int (E + 2 * dx) / 2"
    unfolding s3 by (rule half_exact[OF assms(6)])
  have x: "double_int (x0 + sx) = x0 + sx" using assms(2) by (rule double_int_exact)
  have y: "double_int (y0 + sy) = y0 + sy" using assms(3) by (rule double_int_exact)
  show ?thesis
    unfolding loop_double_unfold[OF assms(1)] half_less_iff_real half_greater_iff_real
    by (cases "- 2 * dx < E"; cases "E < 2 * dy") (simp_all only: a b c x y if_True if_False)
qed


lemma loop_double_x_major:
  fixes n :: nat and r E :: int
  assumes "sx = 1 \<or> sx = - 1" and "sy = 1 \<or> sy = - 1"
    and "0 \<le> dy" "dy < dx" "dx \<le> 2 ^ 51"
    and "x1 = x0 + int n * sx" "y1 = y0 + r * sy" "0 \<le> r"
    and "0 \<le> E" "E < 2 * dx"
    and "E - 2 * (int n * dy) + 2 * (r * dx) = dx"
    and "\<bar>x0\<bar> + int n \<le> 2 ^ 52" "\<bar>y0\<bar> + r \<le> 2 ^ 52"
  shows "\<exists>p. drawLine_loop_double x1 y1 dx sx dy sy t c m x0 y0 (of_int E / 2) vs
               = Some (setBlocks t c p m, vs @ p)
             \<and> length p = n \<and> (x1, y1) \<notin> set p"
  using assms
proof (induction n arbitrary: m x0 y0 E vs r)
  case 0
  have "E + 2 * (r * dx) = dx" using "0.prems"(11) by simp
  then have "2 * (r * dx) \<le> dx" using "0.prems"(9) by linarith
  then have "r = 0" using "0.prems"(3,4,8) by (intro mult_small_zero[of r dx]) simp_all
  then have "x0 = x1" "y0 = y1" using "0.prems"(6,7) by simp_all
  then show ?case by (simp add: loop_double_stop setBlocks_def)
next
  case (Suc n)
  note sx = Suc.prems(1) and sy = Suc.prems(2) and dy0 = Suc.prems(3) and dydx = Suc.prems(4)
    and dxb = Suc.prems(5) and x1 = Suc.prems(6) and y1 = Suc.prems(7) and r0 = Suc.prems(8)
    and E0 = Suc.prems(9) and E1 = Suc.prems(10) and inv = Suc.prems(11)
    and xb = Suc.prems(12) and yb = Suc.prems(13)
  have ne: "\<not> (x0 = x1 \<and> y0 = y1)" using sx x1 by auto
  have gt: "- 2 * dx < E" using dy0 dydx E0 by linarith
  have eq: "E - 2 * (int n * dy) - 2 * dy + 2 * (r * dx) = dx"
    using inv by (simp add: algebra_simps)
  have ndy: "0 \<le> int n * dy" using dy0 by simp
  have sxb: "\<bar>x0 + sx\<bar> \<le> \<bar>x0\<bar> + 1" and syb: "\<bar>y0 + sy\<bar> \<le> \<bar>y0\<bar> + 1"
    using sx sy by auto
  have big: "(2::int) ^ 52 + 1 < 2 ^ 53" "(4::int) * 2 ^ 51 = 2 ^ 53" "(2::int) * 2 ^ 51 = 2 ^ 52" by simp_all
  have step: "drawLine_loop_double x1 y1 dx sx dy sy t c m x0 y0 (of_int E / 2) vs =
     drawLine_loop_double x1 y1 dx sx dy sy t c (setBlock m x0 y0 t (Some c))
       (if - 2 * dx < E then x0 + sx else x0)
       (if E < 2 * dy then y0 + sy else y0)
       (of_int (if E < 2 * dy then (if - 2 * dx < E then E - 2 * dy else E) + 2 * dx
                else (if - 2 * dx < E then E - 2 * dy else E)) / 2)
       (vs @ [(x0, y0)])"
  proof (rule loop_double_step[OF ne])
    show "\<bar>x0 + sx\<bar> < 2 ^ 53" using sxb xb big(1) by linarith
    show "\<bar>y0 + sy\<bar> < 2 ^ 53" using syb yb r0 big(1) by linarith
    show "\<bar>E - 2 * dy\<bar> < 2 ^ 53" using dy0 dydx dxb E0 E1 big(2) by linarith
    show "\<bar>E - 2 * dy + 2 * dx\<bar> < 2 ^ 53" using dy0 dydx dxb E0 E1 big(2) by linarith
    show "\<bar>E + 2 * dx\<bar> < 2 ^ 53" using dy0 dydx dxb E0 E1 big(2) by linarith
  qed
  show ?case
  proof (cases "E < 2 * dy")
    case True
    have "0 < r * dx" using eq ndy True dydx E0 by linarith
    then have rpos: "0 < r" using dy0 dydx by (intro pos_of_mult_pos[of r dx]) simp_all
    have "\<exists>p. drawLine_loop_double x1 y1 dx sx dy sy t c (setBlock m x0 y0 t (Some c)) (x0 + sx) (y0 + sy)
              (of_int (E - 2 * dy + 2 * dx) / 2) (vs @ [(x0, y0)])
            = Some (setBlocks t c p (setBlock m x0 y0 t (Some c)), (vs @ [(x0, y0)]) @ p)
            \<and> length p = n \<and> (x1, y1) \<notin> set p"
    proof (rule Suc.IH[where r = "r - 1"])
      show "x1 = x0 + sx + int n * sx" using x1 by (simp add: algebra_simps)
      show "y1 = y0 + sy + (r - 1) * sy" using y1 by (simp add: algebra_simps)
      show "0 \<le> r - 1" using rpos by simp
      show "0 \<le> E - 2 * dy + 2 * dx" using dydx E0 by simp
      show "E - 2 * dy + 2 * dx < 2 * dx" using True by simp
      show "E - 2 * dy + 2 * dx - 2 * (int n * dy) + 2 * ((r - 1) * dx) = dx"
        using eq by (simp add: algebra_simps)
      show "\<bar>x0 + sx\<bar> + int n \<le> 2 ^ 52" using sxb xb by simp
      show "\<bar>y0 + sy\<bar> + (r - 1) \<le> 2 ^ 52" using syb yb by simp
    qed (fact sx sy dy0 dydx dxb)+
    then obtain p where p: "drawLine_loop_double x1 y1 dx sx dy sy t c (setBlock m x0 y0 t (Some c)) (x0 + sx) (y0 + sy)
              (of_int (E - 2 * dy + 2 * dx) / 2) (vs @ [(x0, y0)])
            = Some (setBlocks t c p (setBlock m x0 y0 t (Some c)), (vs @ [(x0, y0)]) @ p)"
       "length p = n" "(x1, y1) \<notin> set p" by blast
    have "drawLine_loop_double x1 y1 dx sx dy sy t c m x0 y0 (of_int E / 2) vs
            = Some (setBlocks t c ((x0, y0) # p) m, vs @ (x0, y0) # p)"
      unfolding step using p(1) gt True by (simp add: setBlocks_def)
    then show ?thesis using p(2,3) ne by (intro exI[of _ "(x0, y0) # p"]) auto
  next
    case False
    have "\<exists>p. drawLine_loop_double x1 y1 dx sx dy sy t c (setBlock m x0 y0 t (Some c)) (x0 + sx) y0
              (of_int (E - 2 * dy) / 2) (vs @ [(x0, y0)])
            = Some (setBlocks t c p (setBlock m x0 y0 t (Some c)), (vs @ [(x0, y0)]) @ p)
            \<and> length p = n \<and> (x1, y1) \<notin> set p"
    proof (rule Suc.IH[where r = r])
      show "x1 = x0 + sx + int n * sx" using x1 by (simp add: algebra_simps)
      show "0 \<le> E - 2 * dy" using False by simp
      show "E - 2 * dy < 2 * dx" using dy0 E1 by simp
      show "E - 2 * dy - 2 * (int n * dy) + 2 * (r * dx) = dx"
        using eq by (simp add: algebra_simps)
      show "\<bar>x0 + sx\<bar> + int n \<le> 2 ^ 52" using sxb xb by simp
    qed (fact sx sy dy0 dydx dxb y1 r0 yb)+
    then obtain p where p: "drawLine_loop_double x1 y1 dx sx dy sy t c (setBlock m x0 y0 t (Some c)) (x0 + sx) y0
              (of_int (E - 2 * dy) / 2) (vs @ [(x0, y0)])
            = Some (setBlocks t c p (setBlock m x0 y0 t (Some c)), (vs @ [(x0, y0)]) @ p)"
       "length p = n" "(x1, y1) \<notin> set p" by blast
    have "drawLine_loop_double x1 y1 dx sx dy sy t c m x0 y0 (of_int E / 2) vs
            = Some (setBlocks t c ((x0, y0) # p) m, vs @ (x0, y0) # p)"
      unfolding step using p(1) gt False by (simp add: setBlocks_def)
    then show ?thesis using p(2,3) ne by (intro exI[of _ "(x0, y0) # p"]) auto
  qed
qed

lemma loop_double_y_major:
  fixes n :: nat and r E :: int
  assumes "sx = 1 \<or> sx = - 1" and "sy = 1 \<or> sy = - 1"
    and "0 \<le> dx" "dx \<le> dy" "0 < dy" "dy \<le> 2 ^ 51"
    and "y1 = y0 + int n * sy" "x1 = x0 + r * sx" "0 \<le> r"
    and "- 2 * dy < E" "E \<le> 0"
    and "E + 2 * (int n * dx) - 2 * (r * dy) = - dy"
    and "\<bar>y0\<bar> + int n \<le> 2 ^ 52" "\<bar>x0\<bar> + r \<le> 2 ^ 52"
  shows "\<exists>p. drawLine_loop_double x1 y1 dx sx dy sy t c m x0 y0 (of_int E / 2) vs
               = Some (setBlocks t c p m, vs @ p)
             \<and> length p = n \<and> (x1, y1) \<notin> set p"
  using assms
proof (induction n arbitrary: m x0 y0 E vs r)
  case 0
  have "E - 2 * (r * dy) = - dy" using "0.prems"(12) by simp
  then have "2 * (r * dy) \<le> dy" using "0.prems"(11) by linarith
  then have "r = 0" using "0.prems"(5,9) by (intro mult_small_zero[of r dy]) simp_all
  then have "x0 = x1" "y0 = y1" using "0.prems"(7,8) by simp_all
  then show ?case by (simp add: loop_double_stop setBlocks_def)
next
  case (Suc n)
  note sx = Suc.prems(1) and sy = Suc.prems(2) and dx0 = Suc.prems(3) and dxdy = Suc.prems(4)
    and dypos = Suc.prems(5) and dyb = Suc.prems(6) and y1 = Suc.prems(7) and x1 = Suc.prems(8)
    and r0 = Suc.prems(9) and E0 = Suc.prems(10) and E1 = Suc.prems(11) and inv = Suc.prems(12)
    and yb = Suc.prems(13) and xb = Suc.prems(14)
  have ne: "\<not> (x0 = x1 \<and> y0 = y1)" using sy y1 by auto
  have lt: "E < 2 * dy" using dypos E1 by linarith
  have eq: "E + 2 * (int n * dx) + 2 * dx - 2 * (r * dy) = - dy"
    using inv by (simp add: algebra_simps)
  have ndx: "0 \<le> int n * dx" using dx0 by simp
  have sxb: "\<bar>x0 + sx\<bar> \<le> \<bar>x0\<bar> + 1" and syb: "\<bar>y0 + sy\<bar> \<le> \<bar>y0\<bar> + 1"
    using sx sy by auto
  have big: "(2::int) ^ 52 + 1 < 2 ^ 53" "(4::int) * 2 ^ 51 = 2 ^ 53" "(2::int) * 2 ^ 51 = 2 ^ 52" by simp_all
  have step: "drawLine_loop_double x1 y1 dx sx dy sy t c m x0 y0 (of_int E / 2) vs =
     drawLine_loop_double x1 y1 dx sx dy sy t c (setBlock m x0 y0 t (Some c))
       (if - 2 * dx < E then x0 + sx else x0)
       (if E < 2 * dy then y0 + sy else y0)
       (of_int (if E < 2 * dy then (if - 2 * dx < E then E - 2 * dy else E) + 2 * dx
                else (if - 2 * dx < E then E - 2 * dy else E)) / 2)
       (vs @ [(x0, y0)])"
  proof (rule loop_double_step[OF ne])
    show "\<bar>x0 + sx\<bar> < 2 ^ 53" using sxb xb r0 big(1) by linarith
    show "\<bar>y0 + sy\<bar> < 2 ^ 53" using syb yb big(1) by linarith
    show "\<bar>E - 2 * dy\<bar> < 2 ^ 53" using dx0 dxdy dyb E0 E1 big(2) by linarith
    show "\<bar>E - 2 * dy + 2 * dx\<bar> < 2 ^ 53" using dx0 dxdy dyb E0 E1 big(2) by linarith
    show "\<bar>E + 2 * dx\<bar> < 2 ^ 53" using dx0 dxdy dyb E0 E1 big(2) by linarith
  qed
  show ?case
  proof (cases "- 2 * dx < E")
    case True
    have "0 < r * dy" using eq ndx True dypos by linarith
    then have rpos: "0 < r" using dypos by (intro pos_of_mult_pos[of r dy]) simp_all
    have "\<exists>p. drawLine_loop_double x1 y1 dx sx dy sy t c (setBlock m x0 y0 t (Some c)) (x0 + sx) (y0 + sy)
              (of_int (E - 2 * dy + 2 * dx) / 2) (vs @ [(x0, y0)])
            = Some (setBlocks t c p (setBlock m x0 y0 t (Some c)), (vs @ [(x0, y0)]) @ p)
            \<and> length p = n \<and> (x1, y1) \<notin> set p"
    proof (rule Suc.IH[where r = "r - 1"])
      show "y1 = y0 + sy + int n * sy" using y1 by (simp add: algebra_simps)
      show "x1 = x0 + sx + (r - 1) * sx" using x1 by (simp add: algebra_simps)
      show "0 \<le> r - 1" using rpos by simp
      show "- 2 * dy < E - 2 * dy + 2 * dx" using True by simp
      show "E - 2 * dy + 2 * dx \<le> 0" using dxdy E1 by simp
      show "E - 2 * dy + 2 * dx + 2 * (int n * dx) - 2 * ((r - 1) * dy) = - dy"
        using eq by (simp add: algebra_simps)
      show "\<bar>y0 + sy\<bar> + int n \<le> 2 ^ 52" using syb yb by simp
      show "\<bar>x0 + sx\<bar> + (r - 1) \<le> 2 ^ 52" using sxb xb by simp
    qed (fact sx sy dx0 dxdy dypos dyb)+
    then obtain p where p: "drawLine_loop_double x1 y1 dx sx dy sy t c (setBlock m x0 y0 t (Some c)) (x0 + sx) (y0 + sy)
              (of_int (E - 2 * dy + 2 * dx) / 2) (vs @ [(x0, y0)])
            = Some (setBlocks t c p (setBlock m x0 y0 t (Some c)), (vs @ [(x0, y0)]) @ p)"
       "length p = n" "(x1, y1) \<notin> set p" by blast
    have "drawLine_loop_double x1 y1 dx sx dy sy t c m x0 y0 (of_int E / 2) vs
            = Some (setBlocks t c ((x0, y0) # p) m, vs @ (x0, y0) # p)"
      unfolding step using p(1) lt True by (simp add: setBlocks_def)
    then show ?thesis using p(2,3) ne by (intro exI[of _ "(x0, y0) # p"]) auto
  next
    case False
    have "\<exists>p. drawLine_loop_double x1 y1 dx sx dy sy t c (setBlock m x0 y0 t (Some c)) x0 (y0 + sy)
              (of_int (E + 2 * dx) / 2) (vs @ [(x0, y0)])
            = Some (setBlocks t c p (setBlock m x0 y0 t (Some c)), (vs @ [(x0, y0)]) @ p)
            \<and> length p = n \<and> (x1, y1) \<notin> set p"
    proof (rule Suc.IH[where r = r])
      show "y1 = y0 + sy + int n * sy" using y1 by (simp add: algebra_simps)
      show "- 2 * dy < E + 2 * dx" using dx0 E0 by simp
      show "E + 2 * dx \<le> 0" using False by simp
      show "E + 2 * dx + 2 * (int n * dx) - 2 * (r * dy) = - dy"
        using eq by (simp add: algebra_simps)
      show "\<bar>y0 + sy\<bar> + int n \<le> 2 ^ 52" using syb yb by simp
    qed (fact sx sy dx0 dxdy dypos dyb x1 r0 xb)+
    then obtain p where p: "drawLine_loop_double x1 y1 dx sx dy sy t c (setBlock m x0 y0 t (Some c)) x0 (y0 + sy)
              (of_int (E + 2 * dx) / 2) (vs @ [(x0, y0)])
            = Some (setBlocks t c p (setBlock m x0 y0 t (Some c)), (vs @ [(x0, y0)]) @ p)"
       "length p = n" "(x1, y1) \<notin> set p" by blast
    have "drawLine_loop_double x1 y1 dx sx dy sy t c m x0 y0 (of_int E / 2) vs
            = Some (setBlocks t c ((x0, y0) # p) m, vs @ (x0, y0) # p)"
      unfolding step using p(1) lt False by (simp add: setBlocks_def)
    then show ?thesis using p(2,3) ne by (intro exI[of _ "(x0, y0) # p"]) auto
  qed
qed

lemma drawLine_double_returns:
  assumes "\<bar>x0\<bar> \<le> 2 ^ 50" and "\<bar>x1\<bar> \<le> 2 ^ 50" and "\<bar>y0\<bar> \<le> 2 ^ 50" and "\<bar>y1\<bar> \<le> 2 ^ 50"
  shows "\<exists>p. drawLine_double m x0 x1 y0 y1 t color = Some (setBlocks t (color_or_default color) p m, p)
       \<and> length p = nat (max \<bar>x1 - x0\<bar> \<bar>y1 - y0\<bar>) \<and> (x1, y1) \<notin> set p"
proof -
  define dx where "dx = \<bar>x1 - x0\<bar>"
  define dy where "dy = \<bar>y1 - y0\<bar>"
  define sx :: int where "sx = (if x0 < x1 then 1 else - 1)"
  define sy :: int where "sy = (if y0 < y1 then 1 else - 1)"
  have big: "(2::int) * 2 ^ 50 = 2 ^ 51" "(2::int) ^ 51 < 2 ^ 53" "(3::int) * 2 ^ 50 \<le> 2 ^ 52" by simp_all
  have sx: "sx = 1 \<or> sx = - 1" and sy: "sy = 1 \<or> sy = - 1" by (simp_all add: sx_def sy_def)
  have x1: "x1 = x0 + dx * sx" by (simp add: dx_def sx_def)
  have y1: "y1 = y0 + dy * sy" by (simp add: dy_def sy_def)
  have nonneg: "0 \<le> dx" "0 \<le> dy" by (simp_all add: dx_def dy_def)
  have dxb: "dx \<le> 2 ^ 51" unfolding dx_def using assms(1,2) big(1) by linarith
  have dyb: "dy \<le> 2 ^ 51" unfolding dy_def using assms(3,4) big(1) by linarith
  have "\<bar>x1 - x0\<bar> < 2 ^ 53" using dxb big(2) unfolding dx_def by linarith
  then have ex: "double_int (x1 - x0) = x1 - x0" by (rule double_int_exact)
  have "\<bar>y1 - y0\<bar> < 2 ^ 53" using dyb big(2) unfolding dy_def by linarith
  then have ey: "double_int (y1 - y0) = y1 - y0" by (rule double_int_exact)
  have "\<bar>if dx > dy then dx else - dy\<bar> < 2 ^ 53" using dxb dyb nonneg big(2) by auto
  then have eerr: "to_double (of_int (if dx > dy then dx else - dy) / 2)
      = of_int (if dx > dy then dx else - dy) / 2"
    by (rule half_exact)
  have unfold: "drawLine_double m x0 x1 y0 y1 t color =
      drawLine_loop_double x1 y1 dx sx dy sy t (color_or_default color) m x0 y0
        (of_int (if dx > dy then dx else - dy) / 2) []"
    unfolding drawLine_double_def ex ey Let_def dx_def[symmetric] dy_def[symmetric]
      sx_def[symmetric] sy_def[symmetric] eerr ..
  have xn: "\<bar>x0\<bar> + dx \<le> 2 ^ 52" using assms(1) dxb big by linarith
  have yn: "\<bar>y0\<bar> + dy \<le> 2 ^ 52" using assms(3) dyb big by linarith
  consider (xmajor) "dy < dx" | (ymajor) "dx \<le> dy" "0 < dy" | (point) "dx = 0" "dy = 0"
    using nonneg by linarith
  then show ?thesis
  proof cases
    case xmajor
    have "\<exists>p. drawLine_loop_double x1 y1 dx sx dy sy t (color_or_default color) m x0 y0 (of_int dx / 2) []
               = Some (setBlocks t (color_or_default color) p m, [] @ p)
             \<and> length p = nat dx \<and> (x1, y1) \<notin> set p"
    proof (rule loop_double_x_major[where r = dy])
      show "x1 = x0 + int (nat dx) * sx" using x1 nonneg by simp
      show "dx - 2 * (int (nat dx) * dy) + 2 * (dy * dx) = dx" using nonneg by simp
      show "\<bar>x0\<bar> + int (nat dx) \<le> 2 ^ 52" using xn nonneg by simp
      show "0 \<le> dx" by fact
      show "dx < 2 * dx" using xmajor nonneg by linarith
    qed (fact sx sy nonneg xmajor dxb y1 yn)+
    then show ?thesis using xmajor unfold by (simp add: dx_def dy_def max_def)
  next
    case ymajor
    have "\<exists>p. drawLine_loop_double x1 y1 dx sx dy sy t (color_or_default color) m x0 y0 (of_int (- dy) / 2) []
               = Some (setBlocks t (color_or_default color) p m, [] @ p)
             \<and> length p = nat dy \<and> (x1, y1) \<notin> set p"
    proof (rule loop_double_y_major[where r = dx])
      show "y1 = y0 + int (nat dy) * sy" using y1 nonneg by simp
      show "- dy + 2 * (int (nat dy) * dx) - 2 * (dx * dy) = - dy" using nonneg by simp
      show "\<bar>y0\<bar> + int (nat dy) \<le> 2 ^ 52" using yn nonneg by simp
      show "- 2 * dy < - dy" using ymajor by linarith
      show "- dy \<le> 0" using nonneg by linarith
    qed (fact sx sy nonneg ymajor dyb x1 xn)+
    then show ?thesis using ymajor unfold by (simp add: dx_def dy_def max_def)
  next
    case point
    then have "x0 = x1" "y0 = y1" by (simp_all add: dx_def dy_def)
    then show ?thesis by (simp add: drawLine_double_def loop_double_stop setBlocks_def)
  qed
qed

lemma loop_double_absorbed:
  "drawLine_loop_double (2 ^ 53 + 10) 0 10 1 0 (- 1) t c m (2 ^ 53) 0 5 vs = None"
proof (rule ccontr)
  assume "drawLine_loop_double (2 ^ 53 + 10) 0 10 1 0 (- 1) t c m (2 ^ 53) 0 5 vs \<noteq> None"
  then obtain res where res:
    "drawLine_loop_double (2 ^ 53 + 10) 0 10 1 0 (- 1) t c m (2 ^ 53) 0 5 vs = Some res"
    by blast
  have five: "to_double 5 = 5" using to_double_exact[of 5 0 5 3] by simp
  have plus_one: "double_int 9007199254740993 = 9007199254740992" using double_int_absorbed by simp
  let ?stuck = "\<lambda>(x1::int) (y1::int) (dx::int) (sx::int) (dy::int) (sy::int) (x0::int) (y0::int) (err::real).
      x1 = 2 ^ 53 + 10 \<and> y1 = 0 \<and> dx = 10 \<and> sx = 1 \<and> dy = 0 \<and> sy = - 1 \<and>
      x0 = 2 ^ 53 \<and> y0 = 0 \<and> err = 5"
  have "\<not> ?stuck (2 ^ 53 + 10) 0 10 1 0 (- 1) (2 ^ 53) 0 5"
  proof (rule drawLine_loop_double.raw_induct
      [where P = "\<lambda>x1 y1 dx sx dy sy t c m x0 y0 err vs res. \<not> ?stuck x1 y1 dx sx dy sy x0 y0 err",
       OF _ res])
    fix loop :: "int \<Rightarrow> int \<Rightarrow> int \<Rightarrow> int \<Rightarrow> int \<Rightarrow> int \<Rightarrow> int \<Rightarrow> string \<Rightarrow>
        blockmap \<Rightarrow> int \<Rightarrow> int \<Rightarrow> real \<Rightarrow> (int \<times> int) list \<Rightarrow> (blockmap \<times> (int \<times> int) list) option"
    fix x1 y1 dx sx dy sy t' c' m' x0 y0 err vs' res'
    assume IH: "\<And>x1 y1 dx sx dy sy t c m x0 y0 err vs res.
        loop x1 y1 dx sx dy sy t c m x0 y0 err vs = Some res \<Longrightarrow> \<not> ?stuck x1 y1 dx sx dy sy x0 y0 err"
    assume body: "(if \<not> (x0 = x1 \<and> y0 = y1)
      then let m'' = setBlock m' x0 y0 t' (Some c'); e2 = err;
               err' = if - real_of_int dx < e2 then to_double (err - real_of_int dy) else err;
               x0' = if - real_of_int dx < e2 then double_int (x0 + sx) else x0;
               err'' = if e2 < real_of_int dy then to_double (err' + real_of_int dx) else err';
               y0' = if e2 < real_of_int dy then double_int (y0 + sy) else y0
           in loop x1 y1 dx sx dy sy t' c' m'' x0' y0' err'' (vs' @ [(x0, y0)])
      else Some (m', vs')) = Some res'"
    show "\<not> ?stuck x1 y1 dx sx dy sy x0 y0 err"
    proof
      assume s: "?stuck x1 y1 dx sx dy sy x0 y0 err"
      then have "loop (2 ^ 53 + 10) 0 10 1 0 (- 1) t' c' (setBlock m' (2 ^ 53) 0 t' (Some c'))
          (2 ^ 53) 0 5 (vs' @ [(2 ^ 53, 0)]) = Some res'"
        using body by (simp add: Let_def plus_one five)
      from IH[OF this] show False by simp
    qed
  qed
  then show False by simp
qed

lemma absorbed_line: "drawLine_double m 9007199254740992 9007199254741002 0 0 t c = None"
proof -
  have "double_int 10 = 10" "double_int 0 = 0" by (simp_all add: double_int_exact)
  moreover have "to_double 5 = 5" by (simp add: to_double_numeral)
  ultimately show ?thesis
    using loop_double_absorbed[of t "color_or_default c" m "[]"]
    by (simp add: drawLine_double_def)
qed

section \<open>Facts about drawTree in doubles\<close>

lemma replay_lines_append:
  "replay_lines (a @ b) m = (case replay_lines a m of None \<Rightarrow> None | Some m' \<Rightarrow> replay_lines b m')"
proof (induction a arbitrary: m)
  case Nil
  show ?case by simp
next
  case (Cons l a)
  show ?case by (cases l) (simp add: Cons.IH split: option.splits)
qed

lemma drawTree_double_0:
  "drawTree_double Math_cos Math_sin Math_random st x1 y1 angle 0 = Some st"
  by (subst drawTree_double.simps) simp

lemma Math_round_bound:
  assumes "\<bar>v\<bar> \<le> of_int K"
  shows "\<bar>Math_round v\<bar> \<le> K"
proof -
  have "v + 1 / 2 < of_int (K + 1)" "of_int (- K) \<le> v + 1 / 2" using assms by simp_all
  then have "\<lfloor>v + 1 / 2\<rfloor> < K + 1" "- K \<le> \<lfloor>v + 1 / 2\<rfloor>"
    by (simp_all only: floor_less_iff le_floor_iff)
  then show ?thesis by (simp add: Math_round_def)
qed

text \<open>The end point of a branch of depth \<open>d\<close> is within \<open>10 * d\<close> of its start point.\<close>

lemma endpoint_bound:
  assumes "\<bar>c\<bar> \<le> 1" and "0 \<le> d" and "10 * d \<le> 2 ^ 52"
    and "\<bar>v\<bar> + of_int (10 * d) \<le> of_int K" and "K \<le> 2 ^ 52"
  shows "\<bar>to_double (v + to_double (to_double (c * of_int d) * 10))\<bar> \<le> of_int K"
proof -
  have "\<bar>c * of_int d\<bar> \<le> of_int d"
    using assms(1,2) by (simp add: abs_mult mult_left_le_one_le)
  then have "\<bar>to_double (c * of_int d)\<bar> \<le> of_int d"
    using assms(2,3) by (intro to_double_bound) simp_all
  then have "\<bar>to_double (c * of_int d) * 10\<bar> \<le> of_int (10 * d)"
    by (simp add: abs_mult)
  then have "\<bar>to_double (to_double (c * of_int d) * 10)\<bar> \<le> of_int (10 * d)"
    using assms(3) by (intro to_double_bound) simp_all
  then have "\<bar>v + to_double (to_double (c * of_int d) * 10)\<bar> \<le> of_int K"
    using assms(4) by linarith
  then show ?thesis using assms(5) by (rule to_double_bound)
qed

lemma budget_arith:
  fixes n :: nat
  assumes "\<bar>v\<bar> \<le> 2 ^ 50 - 5 * real (Suc n) * (real (Suc n) + 1)"
  shows "10 * int (Suc n) \<le> 2 ^ 52"
    and "\<bar>v\<bar> + of_int (10 * int (Suc n)) \<le> of_int (2 ^ 50 - 5 * int n * (int n + 1))"
    and "2 ^ 50 - 5 * int n * (int n + 1) \<le> 2 ^ 52"
    and "\<bar>v\<bar> \<le> of_int (2 ^ 50)"
    and "\<bar>int n\<bar> < 2 ^ 53"
proof -
  have q: "5 * real (Suc n) * (real (Suc n) + 1) = 5 * real n * (real n + 1) + 10 * real (Suc n)"
    by (simp add: algebra_simps)
  have nn: "0 \<le> 5 * real n * (real n + 1)" by simp
  have "0 \<le> \<bar>v\<bar>" by simp
  with assms q nn have r: "10 * real (Suc n) \<le> 2 ^ 50" by linarith
  have "real_of_int (10 * int (Suc n)) \<le> real_of_int (2 ^ 50)" using r by simp
  then have i: "10 * int (Suc n) \<le> 2 ^ 50" by (simp only: of_int_le_iff)
  then show "10 * int (Suc n) \<le> 2 ^ 52" by simp
  show "\<bar>v\<bar> + of_int (10 * int (Suc n)) \<le> of_int (2 ^ 50 - 5 * int n * (int n + 1))"
    using assms q by simp
  have "0 \<le> 5 * int n * (int n + 1)" "(2::int) ^ 50 \<le> 2 ^ 52" by simp_all
  then show "2 ^ 50 - 5 * int n * (int n + 1) \<le> 2 ^ 52" by linarith
  have "0 \<le> 10 * real (Suc n)" by simp
  with assms q nn have "\<bar>v\<bar> \<le> 2 ^ 50" by linarith
  then show "\<bar>v\<bar> \<le> of_int (2 ^ 50)" by simp
  show "\<bar>int n\<bar> < 2 ^ 53" using i by simp
qed

lemma cell_setBlocks_cases:
  "cell (setBlocks thickness color ps m) x y = cell m x y \<or>
   cell (setBlocks thickness color ps m) x y = Some (Block color thickness)"
proof (induction ps arbitrary: m)
  case Nil
  show ?case by (simp add: setBlocks_def)
next
  case (Cons q ps)
  obtain a b where q: "q = (a, b)" by (cases q)
  let ?m1 = "setBlock m a b thickness (Some color)"
  have unfold: "setBlocks thickness color (q # ps) m = setBlocks thickness color ps ?m1"
    by (simp add: setBlocks_def q)
  have "cell ?m1 x y = cell m x y \<or> cell ?m1 x y = Some (Block color thickness)"
    by (simp add: cell_setBlock color_or_default_def)
  then show ?case unfolding unfold using Cons.IH[of ?m1] by auto
qed

lemma drawTree_double_lines:
  assumes cosb: "\<And>v. \<bar>mc v\<bar> \<le> 1" and sinb: "\<And>v. \<bar>ms v\<bar> \<le> 1"
  shows "\<bar>x\<bar> \<le> 2 ^ 50 - 5 * real n * (real n + 1) \<Longrightarrow>
     \<bar>y\<bar> \<le> 2 ^ 50 - 5 * real n * (real n + 1) \<Longrightarrow>
     \<exists>st'. drawTree_double mc ms rnd st x y a (int n) = Some st' \<and>
     (\<exists>new. lines st' = lines st @ new \<and> length new = 2 ^ n - 1 \<and>
        replay_lines new (grid st) = Some (grid st') \<and>
        (\<forall>i j. cell (grid st') i j = cell (grid st) i j \<or>
           (\<exists>l \<in> set new. cell (grid st') i j = Some (Block (line_color l) (line_thickness l)))) \<and>
        (\<forall>l \<in> set new. line_thickness l = call_depth l \<and> 1 \<le> call_depth l \<and> call_depth l \<le> int n) \<and>
        (\<forall>d. count_list (map line_thickness new) d =
               (if 1 \<le> d \<and> d \<le> int n then 2 ^ nat (int n - d) else 0)))"
proof (induction n arbitrary: st x y a)
  case 0
  show ?case by (simp add: drawTree_double_0)
next
  case (Suc n)
  let ?depth = "int (Suc n)"
  let ?x2 = "to_double (x + to_double (to_double (mc (to_double (a * deg2Rad_double)) * of_int ?depth) * 10))"
  let ?y2 = "to_double (y + to_double (to_double (ms (to_double (a * deg2Rad_double)) * of_int ?depth) * 10))"
  let ?color = "if ?depth < 3
       then CHR ''#'' # toString16 (shift_left_0 (to_double (rnd (draws st) * 16777215)))
       else ''#000000''"
  let ?st1 = "if ?depth < 3 then st\<lparr>draws := Suc (draws st)\<rparr> else st"
  let ?L = "DrawLine ?depth (Math_round x) (Math_round ?x2) (Math_round y) (Math_round ?y2) ?depth ?color"
  note bx = budget_arith[OF Suc.prems(1)] and bv = budget_arith[OF Suc.prems(2)]
  have x2: "\<bar>?x2\<bar> \<le> of_int (2 ^ 50 - 5 * int n * (int n + 1))"
    using cosb bx(1,2,3) by (intro endpoint_bound) simp_all
  have y2: "\<bar>?y2\<bar> \<le> of_int (2 ^ 50 - 5 * int n * (int n + 1))"
    using sinb bv(1,2,3) by (intro endpoint_bound) simp_all
  have "0 \<le> 5 * int n * (int n + 1)" by simp
  then have small: "(2::int) ^ 50 - 5 * int n * (int n + 1) \<le> 2 ^ 50" by linarith
  have "\<bar>?x2\<bar> \<le> of_int (2 ^ 50)" "\<bar>?y2\<bar> \<le> of_int (2 ^ 50)"
    using x2 y2 small by (meson of_int_le_iff order_trans)+
  then have rb: "\<bar>Math_round x\<bar> \<le> 2 ^ 50" "\<bar>Math_round ?x2\<bar> \<le> 2 ^ 50"
      "\<bar>Math_round y\<bar> \<le> 2 ^ 50" "\<bar>Math_round ?y2\<bar> \<le> 2 ^ 50"
    using bx(4) bv(4) by (simp_all only: Math_round_bound)
  obtain p where p: "drawLine_double (grid ?st1) (Math_round x) (Math_round ?x2) (Math_round y)
      (Math_round ?y2) ?depth (Some ?color)
        = Some (setBlocks ?depth (color_or_default (Some ?color)) p (grid ?st1), p)"
    using drawLine_double_returns[OF rb(1,2,3,4)] by blast
  let ?m' = "setBlocks ?depth (color_or_default (Some ?color)) p (grid ?st1)"
  let ?st2 = "?st1\<lparr>grid := ?m', lines := lines ?st1 @ [?L]\<rparr>"
  let ?st3 = "?st2\<lparr>draws := Suc (draws ?st2)\<rparr>"
  let ?a1 = "to_double (a - of_int (FractalTree_random_double (rnd (draws ?st2)) 20 30))"
  have x2r: "\<bar>?x2\<bar> \<le> 2 ^ 50 - 5 * real n * (real n + 1)" using x2 by simp
  have y2r: "\<bar>?y2\<bar> \<le> 2 ^ 50 - 5 * real n * (real n + 1)" using y2 by simp
  obtain st4 new1 where st4: "drawTree_double mc ms rnd ?st3 ?x2 ?y2 ?a1 (int n) = Some st4"
      "lines st4 = lines ?st3 @ new1" "length new1 = 2 ^ n - 1"
      "replay_lines new1 (grid ?st3) = Some (grid st4)"
      "\<forall>i j. cell (grid st4) i j = cell (grid ?st3) i j \<or>
           (\<exists>l \<in> set new1. cell (grid st4) i j = Some (Block (line_color l) (line_thickness l)))"
      "\<forall>l \<in> set new1. line_thickness l = call_depth l \<and> 1 \<le> call_depth l \<and> call_depth l \<le> int n"
      "\<forall>d. count_list (map line_thickness new1) d = (if 1 \<le> d \<and> d \<le> int n then 2 ^ nat (int n - d) else 0)"
    using Suc.IH[OF x2r y2r, of ?st3 ?a1] by blast
  let ?st5 = "st4\<lparr>draws := Suc (draws st4)\<rparr>"
  let ?a2 = "to_double (a + of_int (FractalTree_random_double (rnd (draws st4)) 20 30))"
  obtain st6 new2 where st6: "drawTree_double mc ms rnd ?st5 ?x2 ?y2 ?a2 (int n) = Some st6"
      "lines st6 = lines ?st5 @ new2" "length new2 = 2 ^ n - 1"
      "replay_lines new2 (grid ?st5) = Some (grid st6)"
      "\<forall>i j. cell (grid st6) i j = cell (grid ?st5) i j \<or>
           (\<exists>l \<in> set new2. cell (grid st6) i j = Some (Block (line_color l) (line_thickness l)))"
      "\<forall>l \<in> set new2. line_thickness l = call_depth l \<and> 1 \<le> call_depth l \<and> call_depth l \<le> int n"
      "\<forall>d. count_list (map line_thickness new2) d = (if 1 \<le> d \<and> d \<le> int n then 2 ^ nat (int n - d) else 0)"
    using Suc.IH[OF x2r y2r, of ?st5 ?a2] by blast
  have pos: "0 < ?depth" by simp
  have "double_int (int n) = int n" using bx(5) by (rule double_int_exact)
  then have pred: "double_int (?depth - 1) = int n" by simp
  have run: "drawTree_double mc ms rnd st x y a ?depth = Some st6"
    by (subst drawTree_double.simps)
       (simp only: pos if_True Let_def p Option.bind.simps fst_conv pred st4(1) st6(1))
  have lines6: "lines st6 = lines st @ (?L # new1 @ new2)"
    using st4(2) st6(2) by simp
  have one: "(1::nat) \<le> 2 ^ n" by simp
  have len: "length (?L # new1 @ new2) = 2 ^ Suc n - 1"
  proof -
    have "length (?L # new1 @ new2) = Suc ((2 ^ n - 1) + (2 ^ n - 1))"
      using st4(3) st6(3) by simp
    also have "\<dots> = 2 * 2 ^ n - 1" using one by arith
    finally show ?thesis by simp
  qed
  have g1: "grid ?st1 = grid st" by simp
  have rep: "replay_lines (?L # new1 @ new2) (grid st) = Some (grid st6)"
    using p st4(4) st6(4) unfolding g1 by (simp add: replay_lines_append)
  have each: "\<forall>l \<in> set (?L # new1 @ new2).
      line_thickness l = call_depth l \<and> 1 \<le> call_depth l \<and> call_depth l \<le> ?depth"
    using st4(6) st6(6) by auto
  have cells: "cell (grid st6) i j = cell (grid st) i j \<or>
      (\<exists>l \<in> set (?L # new1 @ new2). cell (grid st6) i j = Some (Block (line_color l) (line_thickness l)))"
    for i j
  proof -
    have g3: "grid ?st3 = setBlocks ?depth ?color p (grid ?st1)"
      by (simp add: color_or_default_def)
    have L: "line_color ?L = ?color" "line_thickness ?L = ?depth" by simp_all
    from cell_setBlocks_cases[of ?depth ?color p "grid ?st1" i j]
    have "cell (grid ?st3) i j = cell (grid ?st1) i j \<or>
        cell (grid ?st3) i j = Some (Block ?color ?depth)"
      unfolding g3 .
    then have c3: "cell (grid ?st3) i j = cell (grid st) i j \<or>
        cell (grid ?st3) i j = Some (Block (line_color ?L) (line_thickness ?L))"
      unfolding L g1 .
    have c4: "cell (grid st4) i j = cell (grid ?st3) i j \<or>
        (\<exists>l \<in> set new1. cell (grid st4) i j = Some (Block (line_color l) (line_thickness l)))"
      using st4(5) by blast
    have c6: "cell (grid st6) i j = cell (grid st4) i j \<or>
        (\<exists>l \<in> set new2. cell (grid st6) i j = Some (Block (line_color l) (line_thickness l)))"
      using st6(5) by simp
    have mem: "?L \<in> set (?L # new1 @ new2)" "set new1 \<subseteq> set (?L # new1 @ new2)"
        "set new2 \<subseteq> set (?L # new1 @ new2)"
      by auto
    from c6 show ?thesis
    proof
      assume e6: "cell (grid st6) i j = cell (grid st4) i j"
      from c4 show ?thesis
      proof
        assume e4: "cell (grid st4) i j = cell (grid ?st3) i j"
        from c3 show ?thesis
        proof
          assume "cell (grid ?st3) i j = cell (grid st) i j"
          with e6 e4 show ?thesis by simp
        next
          assume "cell (grid ?st3) i j = Some (Block (line_color ?L) (line_thickness ?L))"
          with e6 e4 have "cell (grid st6) i j = Some (Block (line_color ?L) (line_thickness ?L))"
            by simp
          with mem(1) show ?thesis by blast
        qed
      next
        assume "\<exists>l \<in> set new1. cell (grid st4) i j = Some (Block (line_color l) (line_thickness l))"
        with e6 mem(2) show ?thesis by auto
      qed
    next
      assume "\<exists>l \<in> set new2. cell (grid st6) i j = Some (Block (line_color l) (line_thickness l))"
      with mem(3) show ?thesis by auto
    qed
  qed
  have census: "count_list (map line_thickness (?L # new1 @ new2)) d =
               (if 1 \<le> d \<and> d \<le> ?depth then 2 ^ nat (?depth - d) else 0)" for d
  proof -
    have "count_list (map line_thickness (?L # new1 @ new2)) d =
        (if d = ?depth then 1 else 0) + 2 * (if 1 \<le> d \<and> d \<le> int n then 2 ^ nat (int n - d) else 0)"
      using st4(7) st6(7) by auto
    also have "\<dots> = (if 1 \<le> d \<and> d \<le> ?depth then 2 ^ nat (?depth - d) else 0)"
    proof (cases "1 \<le> d \<and> d \<le> int n")
      case True
      then have "nat (?depth - d) = Suc (nat (int n - d))" by arith
      with True show ?thesis by simp
    next
      case False
      then show ?thesis by auto
    qed
    finally show ?thesis .
  qed
  show ?case using run lines6 len rep cells each census by blast
qed

lemma drawTree_double_pos:
  "0 < depth \<Longrightarrow> drawTree_double Math_cos Math_sin Math_random st x1 y1 angle depth =
     (let x2 = to_double (x1 + to_double (to_double
                   (Math_cos (to_double (angle * deg2Rad_double)) * of_int depth) * 10));
            y2 = to_double (y1 + to_double (to_double
                   (Math_sin (to_double (angle * deg2Rad_double)) * of_int depth) * 10));
            color = (if depth < 3
                     then CHR ''#'' #
                          toString16 (shift_left_0 (to_double (Math_random (draws st) * 16777215)))
                     else ''#000000'');
            st1 = (if depth < 3 then st\<lparr>draws := Suc (draws st)\<rparr> else st)
        in Option.bind
             (drawLine_double (grid st1) (Math_round x1) (Math_round x2) (Math_round y1)
                (Math_round y2) depth (Some color))
             (\<lambda>drawn.
               let st2 = st1\<lparr>grid := fst drawn,
                              lines := lines st1 @
                                [DrawLine depth
                                   (Math_round x1) (Math_round x2) (Math_round y1) (Math_round y2)
                                   depth color]\<rparr>;
                   r1 = FractalTree_random_double (Math_random (draws st2)) 20 30;
                   st3 = st2\<lparr>draws := Suc (draws st2)\<rparr>
               in Option.bind
                    (drawTree_double Math_cos Math_sin Math_random st3 x2 y2
                       (to_double (angle - of_int r1)) (double_int (depth - 1)))
                    (\<lambda>st4.
                       let r2 = FractalTree_random_double (Math_random (draws st4)) 20 30;
                           st5 = st4\<lparr>draws := Suc (draws st4)\<rparr>
                       in drawTree_double Math_cos Math_sin Math_random st5 x2 y2
                            (to_double (angle + of_int r2)) (double_int (depth - 1)))))"
  by (rule trans[OF drawTree_double.simps]) (simp only: if_True)

section \<open>Claims about reading and writing blocks\<close>

text \<open>
  Claim C3: \<^verbatim>\<open>getBlock\<close> raises a bounds error whenever an index exceeds the grid, in
  particular at \<open>x = width\<close> and at \<open>y = height\<close> of an existing column. The code
  compares with \<^verbatim>\<open><=\<close>, so on a 3 by 2 grid the read at \<open>(0, 2)\<close> returns
  \<^verbatim>\<open>undefined\<close> and raises nothing; the read at \<open>x = 3\<close> fails with a TypeError from
  \<^verbatim>\<open>this.map[3].length\<close>, and only indices beyond the length by two or more reach the
  RangeErrors.
\<close>

theorem getBlock_at_upper_edge:
  "getBlock (BlockMap 3 2) 0 2 = Inr None \<and>
   getBlock (BlockMap 3 2) 3 0 = Inl TypeError \<and>
   getBlock (BlockMap 3 2) 0 3 = Inl (RangeError ''y is out of bounds'') \<and>
   getBlock (BlockMap 3 2) 4 0 = Inl (RangeError ''x is out of bounds'')"
  by (simp add: getBlock_def alength_BlockMap elems_BlockMap new_Array_def)

text \<open>
  Claim C4: on a grid of width \<open>w\<close> and height \<open>h\<close>, \<^verbatim>\<open>setBlock\<close> at a position
  with \<open>x < 0\<close>, \<open>y < 0\<close>, \<open>x \<ge> w\<close> or \<open>y \<ge> h\<close>, with any thickness and
  color, returns normally (\<open>setBlock\<close> is a total function) and leaves the grid as it
  was: the shape is kept and every in-bounds cell holds the value it held before, read
  as \<^verbatim>\<open>this.map[i][j]\<close> or through \<^verbatim>\<open>getBlock\<close>. Unless the only violation is a
  negative \<open>y\<close>, the grid is identical; for a negative \<open>y\<close> in an existing column the
  column object receives a property under that key, outside the cells of the grid.
\<close>

theorem setBlock_out_of_bounds:
  assumes "grid_of w h m" and "x < 0 \<or> y < 0 \<or> int w \<le> x \<or> int h \<le> y"
  shows "grid_of w h (setBlock m x y thickness color) \<and>
         (\<forall>i j. 0 \<le> i \<and> i < int w \<and> 0 \<le> j \<and> j < int h \<longrightarrow>
            cell (setBlock m x y thickness color) i j = cell m i j \<and>
            getBlock (setBlock m x y thickness color) i j = getBlock m i j) \<and>
         (x < 0 \<or> int w \<le> x \<or> int h \<le> y \<longrightarrow> setBlock m x y thickness color = m)"
proof -
  let ?m' = "setBlock m x y thickness color"
  have shape: "grid_of w h ?m'" using assms(1) by (rule grid_of_setBlock)
  have same: "cell ?m' i j = cell m i j \<and> getBlock ?m' i j = getBlock m i j"
    if inside: "0 \<le> i \<and> i < int w \<and> 0 \<le> j \<and> j < int h" for i j
  proof -
    have "\<not> (i = x \<and> j = y)" using inside assms(2) by auto
    then have c: "cell ?m' i j = cell m i j" by (auto simp: cell_setBlock)
    have "getBlock ?m' i j = Inr (cell ?m' i j)"
      using shape inside by (intro getBlock_inside[of w h]) simp_all
    moreover have "getBlock m i j = Inr (cell m i j)"
      using assms(1) inside by (intro getBlock_inside[of w h]) simp_all
    ultimately show ?thesis using c by simp
  qed
  have "?m' = m" if "x < 0 \<or> int w \<le> x \<or> int h \<le> y"
    using assms(1) that by (rule setBlock_outside)
  with shape same show ?thesis by blast
qed

theorem setBlock_out_of_bounds_witness:
  "grid_of 3 2 (setBlock (BlockMap 3 2) 1 1 5 (Some ''#ff0000'')) \<and>
   ((1::int) < 0 \<or> (- 1::int) < 0 \<or> int 3 \<le> 1 \<or> int 2 \<le> - 1) \<and>
   getBlock (setBlock (setBlock (BlockMap 3 2) 1 1 5 (Some ''#ff0000'')) 1 (- 1) 7 None) 1 1
     = Inr (Some (Block ''#ff0000'' 5)) \<and>
   getBlock (setBlock (setBlock (BlockMap 3 2) 1 1 5 (Some ''#ff0000'')) 1 (- 1) 7 None) 0 1
     = Inr None"
proof -
  let ?g = "setBlock (BlockMap 3 2) 1 1 5 (Some ''#ff0000'')"
  have g: "grid_of 3 2 ?g" by (intro grid_of_setBlock grid_of_BlockMap)
  have before: "getBlock ?g 1 1 = Inr (Some (Block ''#ff0000'' 5))" "getBlock ?g 0 1 = Inr None"
    by (simp_all add: getBlock_def setBlock_def alength_BlockMap elems_BlockMap array_put_def
          new_Array_def color_or_default_def)
  have "(1::int) < 0 \<or> (- 1::int) < 0 \<or> int 3 \<le> 1 \<or> int 2 \<le> - 1" by simp
  from setBlock_out_of_bounds[OF g this, of 7 None] before g show ?thesis by simp
qed

text \<open>
  Claim C9: on a grid of width \<open>w\<close> and height \<open>h\<close>, \<^verbatim>\<open>setBlock(x, y, thickness, color)\<close>
  at an in-bounds position followed by \<^verbatim>\<open>getBlock(x, y)\<close> returns a block with the
  written color (the default \<^verbatim>\<open>"#000000"\<close> for an omitted one) and thickness.
\<close>

theorem setBlock_then_getBlock:
  assumes "grid_of w h m" and "0 \<le> x" and "x < int w" and "0 \<le> y" and "y < int h"
  shows "getBlock (setBlock m x y thickness color) x y
           = Inr (Some (Block (color_or_default color) thickness))"
proof -
  let ?m' = "setBlock m x y thickness color"
  have "grid_of w h ?m'" using assms(1) by (rule grid_of_setBlock)
  then have "getBlock ?m' x y = Inr (cell ?m' x y)"
    using assms by (intro getBlock_inside[of w h]) simp_all
  then show ?thesis using cell_setBlock_same[OF assms(1-3,5)] by simp
qed

theorem setBlock_then_getBlock_witness:
  "grid_of 3 2 (BlockMap 3 2) \<and> (0::int) \<le> 1 \<and> (1::int) < int 3 \<and> (1::int) < int 2 \<and>
   getBlock (setBlock (BlockMap 3 2) 1 1 5 (Some ''#ff0000'')) 1 1 = Inr (Some (Block ''#ff0000'' 5)) \<and>
   getBlock (setBlock (BlockMap 3 2) 1 1 5 None) 1 1 = Inr (Some (Block ''#000000'' 5))"
  using setBlock_then_getBlock[OF grid_of_BlockMap, of 1 3 1 2 5 "Some ''#ff0000''"]
        setBlock_then_getBlock[OF grid_of_BlockMap, of 1 3 1 2 5 None]
        grid_of_BlockMap[of 3 2]
  by (simp add: color_or_default_def)

section \<open>Claims about drawLine\<close>

text \<open>
  Claim C1: between distinct in-bounds endpoints, \<^verbatim>\<open>drawLine\<close> paints the line path of
  \<open>max(|x1 - x0|, |y1 - y0|) + 1\<close> cells, the start cell and the end cell among them.
  The loop tests for the end point before it paints, so the end cell is never painted:
  from \<open>(0, 0)\<close> to \<open>(2, 1)\<close> on a 4 by 4 grid the code paints the two cells
  \<open>(0, 0)\<close> and \<open>(1, 0)\<close> and leaves \<open>(2, 1)\<close> empty.
\<close>

theorem drawLine_misses_end_cell:
  "\<exists>m'. drawLine (BlockMap 4 4) 0 2 0 1 1 None = Some (m', [(0, 0), (1, 0)]) \<and>
        getBlock m' 0 0 = Inr (Some (Block ''#000000'' 1)) \<and>
        getBlock m' 1 0 = Inr (Some (Block ''#000000'' 1)) \<and>
        getBlock m' 2 1 = Inr None"
proof -
  let ?m' = "setBlocks 1 ''#000000'' [(0, 0), (1, 0)] (BlockMap 4 4)"
  have run: "drawLine (BlockMap 4 4) 0 2 0 1 1 None = Some (?m', [(0, 0), (1, 0)])"
    by (simp add: drawLine_def drawLine_loop.simps setBlocks_def color_or_default_def)
  have cells: "getBlock ?m' 0 0 = Inr (Some (Block ''#000000'' 1))"
      "getBlock ?m' 1 0 = Inr (Some (Block ''#000000'' 1))"
      "getBlock ?m' 2 1 = Inr None"
    by (simp_all add: setBlocks_def getBlock_def setBlock_def alength_BlockMap elems_BlockMap
          array_put_def new_Array_def color_or_default_def)
  show ?thesis using run cells by blast
qed

text \<open>
  Claim C2: \<^verbatim>\<open>drawLine\<close> with both endpoints equal paints exactly the one cell at that
  point. In the code the loop condition fails at once: no call of \<^verbatim>\<open>setBlock\<close> is made
  and the grid is returned as it was.
\<close>

theorem drawLine_single_point:
  "drawLine m x0 x0 y0 y0 thickness color = Some (m, [])"
  by (simp add: drawLine_def loop_stop)




section \<open>Claims about drawTree\<close>

text \<open>
  Claim C5: for every positive integer \<open>N\<close>, every start point and every angle, the
  expansion of \<^verbatim>\<open>drawTree\<close> at depth \<open>N\<close> makes exactly \<open>2 ^ N - 1\<close> calls of
  \<^verbatim>\<open>drawLine\<close>, and every line drawn has as thickness the depth of the invocation
  that drew it. In double-precision arithmetic this holds for the start points in
  range, not for every start point. Let every result of \<^verbatim>\<open>Math.cos\<close> and
  \<^verbatim>\<open>Math.sin\<close> be of magnitude at most 1, and let \<open>\<bar>x1\<bar> + 5 * N * (N + 1)\<close> and
  \<open>\<bar>y1\<bar> + 5 * N * (N + 1)\<close> be at most \<open>2 ^ 50\<close>. Then, for every angle and all
  results of \<^verbatim>\<open>Math.random\<close>, \<^verbatim>\<open>drawTree\<close> returns; its invocations together make
  exactly \<open>2 ^ N - 1\<close> calls of \<^verbatim>\<open>drawLine\<close>; the grid it leaves is the grid that
  these calls, made in order, produce from the grid it was given; every cell whose
  content differs from before holds the color and the thickness of one of the calls;
  each call passes as thickness the depth of the invocation that makes it, a depth
  between 1 and \<open>N\<close>; and exactly \<open>2 ^ (N - d)\<close> of the calls have thickness \<open>d\<close>.
\<close>

theorem drawTree_double_line_count:
  assumes "0 < N"
    and "\<forall>v. \<bar>Math_cos v\<bar> \<le> 1" and "\<forall>v. \<bar>Math_sin v\<bar> \<le> 1"
    and "\<bar>x1\<bar> + 5 * of_int N * (of_int N + 1) \<le> 2 ^ 50"
    and "\<bar>y1\<bar> + 5 * of_int N * (of_int N + 1) \<le> 2 ^ 50"
  shows "\<exists>st'. drawTree_double Math_cos Math_sin Math_random st x1 y1 angle N = Some st' \<and>
     (\<exists>new. lines st' = lines st @ new \<and> length new = 2 ^ nat N - 1 \<and>
        replay_lines new (grid st) = Some (grid st') \<and>
        (\<forall>i j. cell (grid st') i j = cell (grid st) i j \<or>
           (\<exists>l \<in> set new. cell (grid st') i j = Some (Block (line_color l) (line_thickness l)))) \<and>
        (\<forall>l \<in> set new. line_thickness l = call_depth l \<and> 1 \<le> call_depth l \<and> call_depth l \<le> N) \<and>
        (\<forall>d. count_list (map line_thickness new) d =
               (if 1 \<le> d \<and> d \<le> N then 2 ^ nat (N - d) else 0)))"
proof -
  have N: "int (nat N) = N" using assms(1) by simp
  have r: "real (nat N) = of_int N" using assms(1) by simp
  have bx: "\<bar>x1\<bar> \<le> 2 ^ 50 - 5 * real (nat N) * (real (nat N) + 1)"
    unfolding r using assms(4) by linarith
  have bv: "\<bar>y1\<bar> \<le> 2 ^ 50 - 5 * real (nat N) * (real (nat N) + 1)"
    unfolding r using assms(5) by linarith
  show ?thesis
    using drawTree_double_lines[of Math_cos Math_sin x1 "nat N" y1 Math_random st angle, OF _ _ bx bv]
      assms(2,3)
    unfolding N by blast
qed

theorem drawTree_double_line_count_witness:
  "(0::int) < 2 \<and> (\<forall>v::real. \<bar>1 / 2 :: real\<bar> \<le> 1) \<and> (\<forall>v::real. \<bar>0 :: real\<bar> \<le> 1) \<and>
   \<bar>1 :: real\<bar> + 5 * of_int 2 * (of_int 2 + 1) \<le> 2 ^ 50 \<and>
   (\<exists>st'. drawTree_double (\<lambda>_. 1 / 2) (\<lambda>_. 0) (\<lambda>_. 0)
            \<lparr>grid = BlockMap 20 20, draws = 0, lines = []\<rparr> 1 1 0 2 = Some st' \<and>
          lines st' = [DrawLine 2 1 11 1 1 2 ''#0'', DrawLine 1 11 16 1 1 1 ''#0'',
                       DrawLine 1 11 16 1 1 1 ''#0''] \<and>
          length (lines st') = 2 ^ nat 2 - 1 \<and>
          replay_lines (lines st') (BlockMap 20 20) = Some (grid st') \<and>
          getBlock (grid st') 1 1 = Inr (Some (Block ''#0'' 2)) \<and>
          getBlock (grid st') 11 1 = Inr (Some (Block ''#0'' 1)) \<and>
          getBlock (grid st') 16 1 = Inr None)"
proof -
  let ?st = "\<lparr>grid = BlockMap 20 20, draws = 0, lines = []\<rparr>"
  let ?trunk = "[(1, 1), (2, 1), (3, 1), (4, 1), (5, 1), (6, 1), (7, 1), (8, 1), (9, 1), (10::int, 1::int)]"
  let ?leaf = "[(11, 1), (12, 1), (13, 1), (14, 1), (15::int, 1::int)]"
  have trunk: "drawLine_double m 1 11 1 1 2 (Some ''#0'') = Some (setBlocks 2 ''#0'' ?trunk m, ?trunk)" for m
    by (simp add: drawLine_double_def drawLine_loop_double.simps setBlocks_def color_or_default_def
          double_int_exact to_double_numeral to_double_half_numeral to_double_0)
  have leaf: "drawLine_double m 11 16 1 1 1 (Some ''#0'') = Some (setBlocks 1 ''#0'' ?leaf m, ?leaf)" for m
    by (simp add: drawLine_double_def drawLine_loop_double.simps setBlocks_def color_or_default_def
          double_int_exact to_double_numeral to_double_half_numeral to_double_0)
  have color: "CHR ''#'' # toString16 (shift_left_0 0) = ''#0''"
    by (simp add: shift_left_0_def toString16_def radix16_digit hex_digit_def)
  let ?g = "setBlocks 1 ''#0'' ?leaf (setBlocks 1 ''#0'' ?leaf (setBlocks 2 ''#0'' ?trunk (BlockMap 20 20)))"
  have run: "\<exists>d. drawTree_double (\<lambda>_. 1 / 2) (\<lambda>_. 0) (\<lambda>_. 0) ?st 1 1 0 2
      = Some \<lparr>grid = ?g, draws = d,
              lines = [DrawLine 2 1 11 1 1 2 ''#0'', DrawLine 1 11 16 1 1 1 ''#0'',
                       DrawLine 1 11 16 1 1 1 ''#0'']\<rparr>"
    by (simp add: drawTree_double_pos drawTree_double_0 Let_def Math_round_def color trunk leaf
          double_int_exact to_double_numeral to_double_half_numeral to_double_0 to_double_1
          to_double_half)
  have cells: "getBlock ?g 1 1 = Inr (Some (Block ''#0'' 2))"
      "getBlock ?g 11 1 = Inr (Some (Block ''#0'' 1))" "getBlock ?g 16 1 = Inr None"
    by (simp_all add: setBlocks_def getBlock_def setBlock_def alength_BlockMap elems_BlockMap
          array_put_def new_Array_def color_or_default_def)
  have "(0::int) < 2" "\<forall>v::real. \<bar>1 / 2 :: real\<bar> \<le> 1" "\<forall>v::real. \<bar>0 :: real\<bar> \<le> 1"
      "\<bar>1 :: real\<bar> + 5 * of_int 2 * (of_int 2 + 1) \<le> 2 ^ 50"
    by simp_all
  from drawTree_double_line_count[OF this(1,2,3,4,4), of "\<lambda>_. 0" ?st 0]
  obtain st' new where t: "drawTree_double (\<lambda>_. 1 / 2) (\<lambda>_. 0) (\<lambda>_. 0) ?st 1 1 0 2 = Some st'"
      "lines st' = lines ?st @ new" "length new = 2 ^ nat 2 - 1"
      "replay_lines new (grid ?st) = Some (grid st')"
    by blast
  with run cells show ?thesis by auto
qed

text \<open>
  The start point has to be in range. Take the start point \<open>(2 ^ 53, 0)\<close>, the angle 0
  and the depth 1 on a 900 by 700 grid, with the cosine and the sine for
  \<^verbatim>\<open>Math.cos\<close> and \<^verbatim>\<open>Math.sin\<close>. The one line runs from \<open>x0 = 2 ^ 53\<close> to
  \<open>x1 = 2 ^ 53 + 10\<close> at \<open>y = 0\<close>. In the loop of \<^verbatim>\<open>drawLine\<close>, \<^verbatim>\<open>x0 += sx\<close>
  computes \<open>2 ^ 53 + 1\<close>, which is not a double and is rounded back to \<open>2 ^ 53\<close>, and
  \<open>err\<close> stays at 5: every iteration starts in the state of the one before, \<open>x0\<close>
  never reaches \<open>x1\<close>, and \<^verbatim>\<open>drawTree\<close> does not return.
\<close>

theorem drawTree_double_absorbed_start:
  "drawTree_double cos sin (\<lambda>_. 0) \<lparr>grid = BlockMap 900 700, draws = 0, lines = []\<rparr>
     (2 ^ 53) 0 0 1 = None"
  by (simp add: drawTree_double_pos Let_def to_double_0 to_double_1 to_double_numeral to_double_beyond
        Math_round_def absorbed_line)

text \<open>
  Claim C6: a branch of depth at least 3 is drawn with \<^verbatim>\<open>"#000000"\<close>, a branch of depth
  below 3 with a random color, and the color stored in every painted cell has the form
  \<^verbatim>\<open>"#RRGGBB"\<close>. The code builds the random color with \<^verbatim>\<open>toString(16)\<close> and does
  not pad it to six digits. With \<^verbatim>\<open>Math.random()\<close> returning \<open>1/32\<close>, the tree of
  depth 1 built by the constructor on a 900 by 700 grid draws its one line with the
  color \<^verbatim>\<open>"#7ffff"\<close>, five digits, and stores it in the cells of that line, such as
  \<open>(450, 699)\<close>. \<^verbatim>\<open>Math.cos\<close> and \<^verbatim>\<open>Math.sin\<close> are taken at their
  double-precision values for the trunk's angle of -90 degrees,
  \<open>6.123233995736766e-17\<close> and \<open>-1\<close>.
\<close>

theorem leaf_color_not_RRGGBB:
  "\<exists>st'. FractalTree (\<lambda>_. 6123233995736766 / 10 ^ 32) (\<lambda>_. - 1) (\<lambda>_. 1 / 32) 1 (BlockMap 900 700)
           = Some st' \<and>
     lines st' = [DrawLine 1 450 450 700 690 1 ''#7ffff''] \<and>
     getBlock (grid st') 450 699 = Inr (Some (Block ''#7ffff'' 1)) \<and>
     \<not> hex_RRGGBB ''#7ffff''"
proof -
  let ?p = "[(450, 700), (450, 699), (450, 698), (450, 697), (450, 696), (450, 695),
             (450, 694), (450, 693), (450, 692), (450::int, 691::int)]"
  let ?m' = "setBlocks 1 ''#7ffff'' ?p (BlockMap 900 700)"
  have trunk: "drawLine m 450 450 700 690 1 (Some ''#7ffff'') = Some (setBlocks 1 ''#7ffff'' ?p m, ?p)" for m
    by (simp add: drawLine_def drawLine_loop.simps setBlocks_def color_or_default_def)
  have run: "FractalTree (\<lambda>_. 6123233995736766 / 10 ^ 32) (\<lambda>_. - 1) (\<lambda>_. 1 / 32) 1 (BlockMap 900 700)
      = Some \<lparr>grid = ?m', draws = 3, lines = [DrawLine 1 450 450 700 690 1 ''#7ffff'']\<rparr>"
    by (simp add: FractalTree_def drawTree_pos drawTree_0 Let_def Math_round_def leaf_color trunk)
  have painted: "getBlock ?m' 450 699 = Inr (Some (Block ''#7ffff'' 1))"
    by (simp add: setBlocks_def getBlock_def setBlock_def alength_BlockMap elems_BlockMap
          array_put_def new_Array_def color_or_default_def)
  have short: "\<not> hex_RRGGBB ''#7ffff''"
    by (simp add: hex_RRGGBB_def)
  show ?thesis using run painted short by simp
qed

text \<open>
  Claim C7: \<^verbatim>\<open>drawTree\<close> with depth 0 is terminal, for any start point and angle: it
  returns the state it was given, so the grid is unchanged, no call of \<^verbatim>\<open>drawLine\<close>
  is logged and \<^verbatim>\<open>Math.random\<close> is not called.
\<close>

theorem drawTree_depth_0:
  "drawTree Math_cos Math_sin Math_random st x1 y1 angle 0 = Some st"
  by (rule drawTree_0)

end
